theory Spec2Isabelle
  imports Complex_Main "HOL-Library.Word"
begin

section \<open>The import command of the six-cities CLI\<close>

text \<open>
  This theory embeds \<^verbatim>\<open>src/cli/commands/import.command.ts\<close>: the class
  \<^verbatim>\<open>ImportCommand\<close> with its handlers \<^verbatim>\<open>onImportedLine\<close>,
  \<^verbatim>\<open>onCompleteImport\<close>, \<^verbatim>\<open>saveOffer\<close> and its entry point
  \<^verbatim>\<open>execute\<close>. Asynchronous code is read sequentially: every \<^verbatim>\<open>await\<close>
  runs the awaited call to its end, a rejected promise is the value \<open>Inl\<close>, and a
  promise that never settles is the outcome \<open>Stalled\<close>. Every call that leaves the
  command (a service call, console output, the acknowledgment handle) is appended to a
  trace, so that order and arguments of the calls can be stated.
\<close>

subsection \<open>Data\<close>

text \<open>
  JavaScript can throw any value; \<^verbatim>\<open>execute\<close> tells instances of
  \<^verbatim>\<open>Error\<close> from everything else.
\<close>

datatype exception = Error string | NonError string

fun instanceof_Error :: "exception \<Rightarrow> bool" where
  "instanceof_Error (Error m) = True"
| "instanceof_Error (NonError v) = False"

type_synonym 'a result = "exception + 'a"

text \<open>
  A JavaScript string is a sequence of UTF-16 code units. The file name, which
  \<^verbatim>\<open>execute\<close> trims and splices into a message, is modelled so; the strings
  that the command only passes on (lines, credentials, record fields) are
  \<open>string\<close>. \<open>units\<close> reads a literal of the theory as code units.
\<close>

type_synonym jsstring = "16 word list"

definition units :: "string \<Rightarrow> jsstring" where
  "units s = map of_char s"

text \<open>
  The owner profile carried by a parsed line, and the argument of
  \<^verbatim>\<open>UserService.findOrCreate\<close>: the profile together with a password.
\<close>

record User =
  userName :: string
  email :: string
  avatarPath :: string
  userType :: string

record CreateUserDto = User +
  password :: string

text \<open>
  The stored owner: the profile, its identity and the credential the store keeps.
\<close>

record UserEntity = User +
  id :: nat
  credential :: "string \<times> string"

text \<open>
  The argument of \<^verbatim>\<open>OfferService.create\<close> has the twelve fields that
  \<^verbatim>\<open>saveOffer\<close> copies; the parsed \<^verbatim>\<open>Offer\<close> has these and the owner
  profile. Values of JavaScript's \<^verbatim>\<open>number\<close> are only passed through.
\<close>

record Coordinates =
  latitude :: real
  longitude :: real

record CreateOfferDto =
  name :: string
  description :: string
  city :: string
  photoPreview :: string
  photos :: "string list"
  isPremium :: bool
  offerType :: string
  roomsCount :: real
  guestCount :: real
  price :: real
  features :: "string list"
  coordinates :: Coordinates

record Offer = CreateOfferDto +
  user :: User

text \<open>The calls that leave the command, in the order they are made.\<close>

datatype event =
    Connect string
  | OpenFile jsstring
  | Line nat string
  | FindOrCreate CreateUserDto string
  | Create CreateOfferDto nat
  | Ack nat
  | ConsoleInfo string
  | ConsoleError jsstring
  | Disconnect

text \<open>
  The state a run works on: the store behind the services, the field
  \<^verbatim>\<open>this.salt\<close>, the promise the line reader waits on (\<open>pending\<close> until the
  acknowledgment handle is called) and the trace.
\<close>

record 'db world =
  store :: 'db
  salt :: string
  pending :: bool
  trace :: "event list"

definition emit :: "event \<Rightarrow> 'db world \<Rightarrow> 'db world" where
  "emit e w = w\<lparr>trace := trace w @ [e]\<rparr>"

text \<open>
  The command's collaborators. The fields \<^verbatim>\<open>userService\<close>,
  \<^verbatim>\<open>offerService\<close> and \<^verbatim>\<open>databaseClient\<close> have interface types; each
  method used is a function on the store that may fail.
\<close>

record 'db ImportCommand =
  userService_findOrCreate :: "CreateUserDto \<Rightarrow> string \<Rightarrow> 'db \<Rightarrow> UserEntity result \<times> 'db"
  offerService_create :: "CreateOfferDto \<Rightarrow> nat \<Rightarrow> 'db \<Rightarrow> unit result \<times> 'db"
  databaseClient_connect :: "string \<Rightarrow> 'db \<Rightarrow> unit result \<times> 'db"
  databaseClient_disconnect :: "'db \<Rightarrow> unit result \<times> 'db"

text \<open>
  The helpers and constants that \<^verbatim>\<open>import.command.ts\<close> imports from
  \<^verbatim>\<open>shared/helpers\<close> and \<^verbatim>\<open>command.constant\<close>; they are parameters of the
  model.
\<close>

record Imports =
  createOffer :: "string \<Rightarrow> Offer result"
  getErrorMessage :: "exception \<Rightarrow> jsstring"
  getMongoURI :: "string \<Rightarrow> string \<Rightarrow> string \<Rightarrow> string \<Rightarrow> string \<Rightarrow> string"
  DEFAULT_DB_PORT :: string
  DEFAULT_USER_PASSWORD :: string

datatype outcome = Returned | Raised exception | Stalled

subsection \<open>The handlers\<close>

text \<open>
  \<^verbatim>\<open>saveOffer\<close>: find or create the owner, then create the listing for the
  owner's id. The two object literals it builds are \<open>ownerDto\<close> (the spread of
  \<^verbatim>\<open>offer.user\<close> with \<^verbatim>\<open>password\<close> set to the constant) and
  \<open>listingDto\<close> (twelve fields copied one by one). A rejected call rejects
  \<^verbatim>\<open>saveOffer\<close> at once.
\<close>

definition ownerDto :: "Imports \<Rightarrow> Offer \<Rightarrow> CreateUserDto" where
  "ownerDto I offer =
     \<lparr>userName = userName (user offer), email = email (user offer),
      avatarPath = avatarPath (user offer), userType = userType (user offer),
      password = DEFAULT_USER_PASSWORD I\<rparr>"

definition listingDto :: "Offer \<Rightarrow> CreateOfferDto" where
  "listingDto offer =
     \<lparr>name = name offer, description = description offer, city = city offer,
      photoPreview = photoPreview offer, photos = photos offer,
      isPremium = isPremium offer, offerType = offerType offer,
      roomsCount = roomsCount offer, guestCount = guestCount offer,
      price = price offer, features = features offer,
      coordinates = coordinates offer\<rparr>"

definition saveOffer ::
  "Imports \<Rightarrow> 'db ImportCommand \<Rightarrow> Offer \<Rightarrow> 'db world \<Rightarrow> unit result \<times> 'db world" where
  "saveOffer I cmd offer w =
     (let w1 = emit (FindOrCreate (ownerDto I offer) (salt w)) w
      in case userService_findOrCreate cmd (ownerDto I offer) (salt w) (store w1) of
           (Inl e, d1) \<Rightarrow> (Inl e, w1\<lparr>store := d1\<rparr>)
         | (Inr u, d1) \<Rightarrow>
             (let w2 = emit (Create (listingDto offer) (id u)) (w1\<lparr>store := d1\<rparr>)
              in case offerService_create cmd (listingDto offer) (id u) (store w2) of
                   (Inl e, d2) \<Rightarrow> (Inl e, w2\<lparr>store := d2\<rparr>)
                 | (Inr _, d2) \<Rightarrow> (Inr (), w2\<lparr>store := d2\<rparr>)))"

text \<open>
  \<^verbatim>\<open>onImportedLine\<close>: parse, save, and only then call the handle
  \<^verbatim>\<open>resolve\<close>. There is no \<^verbatim>\<open>try\<close>: a throwing parser or a rejected save
  rejects the handler before the handle is called.
\<close>

definition onImportedLine ::
  "Imports \<Rightarrow> 'db ImportCommand \<Rightarrow> string \<Rightarrow> ('db world \<Rightarrow> 'db world) \<Rightarrow> 'db world
     \<Rightarrow> unit result \<times> 'db world" where
  "onImportedLine I cmd line resolve w =
     (case createOffer I line of
        Inl e \<Rightarrow> (Inl e, w)
      | Inr offer \<Rightarrow>
          (case saveOffer I cmd offer w of
             (Inl e, w1) \<Rightarrow> (Inl e, w1)
           | (Inr _, w1) \<Rightarrow> (Inr (), resolve w1)))"

text \<open>
  The template string \<^verbatim>\<open>`${count} rows imported.`\<close> renders the count, a
  number of lines, in decimal.
\<close>

definition digitChar :: "nat \<Rightarrow> char" where
  "digitChar d = char_of (of_char CHR ''0'' + d)"

fun toString :: "nat \<Rightarrow> string" where
  "toString count =
     (if 10 \<le> count then toString (count div 10) @ [digitChar (count mod 10)]
      else [digitChar count])"

declare toString.simps [simp del]

text \<open>
  \<^verbatim>\<open>onCompleteImport\<close>: print the summary, then disconnect.
\<close>

definition onCompleteImport ::
  "'db ImportCommand \<Rightarrow> nat \<Rightarrow> 'db world \<Rightarrow> unit result \<times> 'db world" where
  "onCompleteImport cmd count w =
     (let w1 = emit (ConsoleInfo (toString count @ '' rows imported.'')) w;
          w2 = emit Disconnect w1
      in case databaseClient_disconnect cmd (store w2) of
           (r, d) \<Rightarrow> (r, w2\<lparr>store := d\<rparr>))"

subsection \<open>The line reader\<close>

text \<open>
  Modelled from the spec: \<^verbatim>\<open>TSVFileReader\<close> (\<^verbatim>\<open>shared/libs/file-reader\<close>) is
  not among the sources. Section 4.1 of the specification describes it as the
  LineSource: opening a path fails or gives a finite sequence of lines; line
  \<open>i + 1\<close> is not delivered until the handle given with line \<open>i\<close> has been called, and
  a handle that is never called stalls the source; the end of the input is signalled
  with the number of lines delivered; a read failure is signalled once, after the
  work of the last delivered line, and no completion is signalled then. What a
  handler returns is not looked at, as with an event emitter.
\<close>

datatype source = Source (lines: "string list") (failure: "exception option")

type_synonym filesystem = "jsstring \<Rightarrow> exception + source"

definition acknowledge :: "nat \<Rightarrow> 'db world \<Rightarrow> 'db world" where
  "acknowledge i w = emit (Ack i) (w\<lparr>pending := False\<rparr>)"

fun deliver ::
  "(string \<Rightarrow> ('db world \<Rightarrow> 'db world) \<Rightarrow> 'db world \<Rightarrow> unit result \<times> 'db world)
     \<Rightarrow> nat \<Rightarrow> string list \<Rightarrow> 'db world \<Rightarrow> nat option \<times> 'db world" where
  "deliver onLine i [] w = (Some i, w)"
| "deliver onLine i (l # ls) w =
     (let w1 = snd (onLine l (acknowledge i) (emit (Line i l) (w\<lparr>pending := True\<rparr>)))
      in if pending w1 then (None, w1) else deliver onLine (Suc i) ls w1)"

definition read ::
  "filesystem \<Rightarrow> jsstring
     \<Rightarrow> (string \<Rightarrow> ('db world \<Rightarrow> 'db world) \<Rightarrow> 'db world \<Rightarrow> unit result \<times> 'db world)
     \<Rightarrow> (nat \<Rightarrow> 'db world \<Rightarrow> unit result \<times> 'db world)
     \<Rightarrow> 'db world \<Rightarrow> outcome \<times> 'db world" where
  "read fs path onLine onEnd w =
     (let w0 = emit (OpenFile path) w
      in case fs path of
           Inl e \<Rightarrow> (Raised e, w0)
         | Inr src \<Rightarrow>
             (case deliver onLine 0 (lines src) w0 of
                (None, w1) \<Rightarrow> (Stalled, w1)
              | (Some n, w1) \<Rightarrow>
                  (case failure src of
                     Some e \<Rightarrow> (Raised e, w1)
                   | None \<Rightarrow> (Returned, snd (onEnd n w1)))))"

subsection \<open>The entry point\<close>

text \<open>
  \<^verbatim>\<open>String.prototype.trim\<close> removes white space and line terminators from both
  ends. ECMAScript's white space is tab, vertical tab, form feed, space, no-break
  space, the byte order mark U+FEFF and the other space separators of Unicode
  (U+1680, U+2000 to U+200A, U+202F, U+205F, U+3000); its line terminators are line
  feed, carriage return, U+2028 and U+2029. Each is one code unit.
\<close>

definition isWhiteSpace :: "16 word \<Rightarrow> bool" where
  "isWhiteSpace c =
     (c \<in> {0x0009, 0x000B, 0x000C, 0x0020, 0x00A0, 0xFEFF,
            0x1680, 0x202F, 0x205F, 0x3000,
            0x000A, 0x000D, 0x2028, 0x2029}
      \<or> (0x2000 \<le> c \<and> c \<le> 0x200A))"

definition trim :: "jsstring \<Rightarrow> jsstring" where
  "trim s = rev (dropWhile isWhiteSpace (rev (dropWhile isWhiteSpace s)))"

text \<open>
  \<^verbatim>\<open>execute\<close>: build the URI, keep the salt, connect (outside the
  \<^verbatim>\<open>try\<close>), construct the reader on the trimmed file name, register the two
  handlers and read. A caught \<^verbatim>\<open>Error\<close> is reported on the console with the
  file name as given; anything else that was thrown is thrown again.
\<close>

definition execute ::
  "Imports \<Rightarrow> 'db ImportCommand \<Rightarrow> filesystem
     \<Rightarrow> jsstring \<Rightarrow> string \<Rightarrow> string \<Rightarrow> string \<Rightarrow> string \<Rightarrow> string
     \<Rightarrow> 'db world \<Rightarrow> outcome \<times> 'db world" where
  "execute I cmd fs filename login password' host dbname salt' w =
     (let uri = getMongoURI I login password' host (DEFAULT_DB_PORT I) dbname;
          w0 = emit (Connect uri) (w\<lparr>salt := salt'\<rparr>)
      in case databaseClient_connect cmd uri (store w0) of
           (Inl e, d) \<Rightarrow> (Raised e, w0\<lparr>store := d\<rparr>)
         | (Inr _, d) \<Rightarrow>
             (case read fs (trim filename) (onImportedLine I cmd) (onCompleteImport cmd)
                     (w0\<lparr>store := d\<rparr>) of
                (Raised err, w1) \<Rightarrow>
                  (if \<not> instanceof_Error err then (Raised err, w1)
                   else (Returned,
                         emit (ConsoleError (getErrorMessage I err))
                           (emit (ConsoleError (units ''Can't import data from file: '' @ filename)) w1)))
              | (r, w1) \<Rightarrow> (r, w1)))"

subsection \<open>A store in memory\<close>

text \<open>
  Modelled from the spec: \<^verbatim>\<open>DefaultUserService\<close>,
  \<^verbatim>\<open>DefaultOfferService\<close> and \<^verbatim>\<open>MongoDatabaseClient\<close> are not among
  the sources. Section 4.3 of the specification gives owner resolution: look the
  e-mail up; if an owner has it, return that owner and change nothing; if none has,
  create one from the profile's fields and a credential made of the password and the
  salt. Section 6 gives listing creation (always a new listing, for the given owner)
  and connecting to a store target, which fails when the target is unreachable.
\<close>

record OfferEntity = CreateOfferDto +
  userId :: nat

record memdb =
  target :: string
  connected :: bool
  users :: "UserEntity list"
  offers :: "OfferEntity list"

definition DefaultUserService_findOrCreate ::
  "CreateUserDto \<Rightarrow> string \<Rightarrow> memdb \<Rightarrow> UserEntity result \<times> memdb" where
  "DefaultUserService_findOrCreate dto s d =
     (case find (\<lambda>u. email u = email dto) (users d) of
        Some u \<Rightarrow> (Inr u, d)
      | None \<Rightarrow>
          (let u = \<lparr>userName = userName dto, email = email dto,
                    avatarPath = avatarPath dto, userType = userType dto,
                    id = length (users d), credential = (password dto, s)\<rparr>
           in (Inr u, d\<lparr>users := users d @ [u]\<rparr>)))"

definition DefaultOfferService_create ::
  "CreateOfferDto \<Rightarrow> nat \<Rightarrow> memdb \<Rightarrow> unit result \<times> memdb" where
  "DefaultOfferService_create dto uid d =
     (Inr (), d\<lparr>offers := offers d @ [CreateOfferDto.extend dto (OfferEntity.fields uid)]\<rparr>)"

definition MongoDatabaseClient_connect :: "string \<Rightarrow> memdb \<Rightarrow> unit result \<times> memdb" where
  "MongoDatabaseClient_connect uri d =
     (if uri = target d then (Inr (), d\<lparr>connected := True\<rparr>)
      else (Inl (Error ''ConnectionError''), d))"

definition MongoDatabaseClient_disconnect :: "memdb \<Rightarrow> unit result \<times> memdb" where
  "MongoDatabaseClient_disconnect d = (Inr (), d\<lparr>connected := False\<rparr>)"

text \<open>The command as its constructor wires it.\<close>

definition defaultCommand :: "memdb ImportCommand" where
  "defaultCommand =
     \<lparr>userService_findOrCreate = DefaultUserService_findOrCreate,
      offerService_create = DefaultOfferService_create,
      databaseClient_connect = MongoDatabaseClient_connect,
      databaseClient_disconnect = MongoDatabaseClient_disconnect\<rparr>"

text \<open>A listing service whose store rejects every creation.\<close>

definition rejectingCreate :: "CreateOfferDto \<Rightarrow> nat \<Rightarrow> memdb \<Rightarrow> unit result \<times> memdb" where
  "rejectingCreate dto uid d = (Inl (Error ''StoreError''), d)"

definition rejectingCommand :: "memdb ImportCommand" where
  "rejectingCommand = defaultCommand\<lparr>offerService_create := rejectingCreate\<rparr>"

subsection \<open>Concrete inputs\<close>

text \<open>
  The instances below run the model on small inputs. The parser of the helpers is
  not among the sources and stays a parameter of every general statement; the
  instances use a stand-in that reads the whole line as the owner's e-mail and
  rejects the empty line.
\<close>

definition sampleOffer :: "string \<Rightarrow> Offer" where
  "sampleOffer mail =
     \<lparr>name = ''Loft'', description = ''Bright loft'', city = ''Paris'',
      photoPreview = ''p.jpg'', photos = [''a.jpg'', ''b.jpg''], isPremium = True,
      offerType = ''apartment'', roomsCount = 2, guestCount = 3, price = 120,
      features = [''Washer''], coordinates = \<lparr>latitude = 48, longitude = 2\<rparr>,
      user = \<lparr>userName = ''Ann'', email = mail, avatarPath = ''ann.png'',
              userType = ''pro''\<rparr>\<rparr>"

definition sampleParser :: "string \<Rightarrow> Offer result" where
  "sampleParser line = (if line = [] then Inl (Error ''ParseError'') else Inr (sampleOffer line))"

definition sampleImports :: Imports where
  "sampleImports =
     \<lparr>createOffer = sampleParser,
      getErrorMessage = (\<lambda>e. case e of Error m \<Rightarrow> units m | NonError v \<Rightarrow> []),
      getMongoURI = (\<lambda>login pw host port dbname. host @ '':'' @ port @ ''/'' @ dbname),
      DEFAULT_DB_PORT = ''27017'',
      DEFAULT_USER_PASSWORD = ''123456''\<rparr>"

definition emptyWorld :: "memdb world" where
  "emptyWorld =
     \<lparr>store = \<lparr>target = ''db:27017/six'', connected = False, users = [], offers = []\<rparr>,
      salt = [], pending = False, trace = []\<rparr>"

definition sampleFiles :: filesystem where
  "sampleFiles path =
     (if path = (units ''ok.tsv'') then Inr (Source [''a@x'', ''b@x'', ''a@x''] None)
      else if path = (units ''bad.tsv'') then Inr (Source [''a@x'', [], ''b@x''] None)
      else if path = (units ''cut.tsv'') then Inr (Source [''a@x''] (Some (Error ''EIO'')))
      else if path = (units ''odd.tsv'') then Inr (Source [] (Some (NonError ''oops'')))
      else Inl (Error ''ENOENT''))"

subsection \<open>Reading a trace\<close>

text \<open>
  The events a run added to the trace, and what the statements read off them: the
  indices acknowledged, the indices delivered, console output, the paths opened, the
  arguments of the owner calls, and how often the connection was released.
\<close>

definition added :: "'db world \<Rightarrow> 'db world \<Rightarrow> event list" where
  "added w w' = drop (length (trace w)) (trace w')"

definition extends :: "'db world \<Rightarrow> 'db world \<Rightarrow> bool" where
  "extends w w' = (take (length (trace w)) (trace w') = trace w)"

fun ackIndex :: "event \<Rightarrow> nat list" where
  "ackIndex (Ack i) = [i]"
| "ackIndex _ = []"

definition acks :: "event list \<Rightarrow> nat list" where
  "acks t = concat (map ackIndex t)"

fun lineIndex :: "event \<Rightarrow> nat list" where
  "lineIndex (Line i l) = [i]"
| "lineIndex _ = []"

definition delivered :: "event list \<Rightarrow> nat list" where
  "delivered t = concat (map lineIndex t)"

fun infoText :: "event \<Rightarrow> string list" where
  "infoText (ConsoleInfo m) = [m]"
| "infoText _ = []"

definition infos :: "event list \<Rightarrow> string list" where
  "infos t = concat (map infoText t)"

fun errorText :: "event \<Rightarrow> jsstring list" where
  "errorText (ConsoleError m) = [m]"
| "errorText _ = []"

definition errors :: "event list \<Rightarrow> jsstring list" where
  "errors t = concat (map errorText t)"

fun openedPath :: "event \<Rightarrow> jsstring list" where
  "openedPath (OpenFile p) = [p]"
| "openedPath _ = []"

definition opened :: "event list \<Rightarrow> jsstring list" where
  "opened t = concat (map openedPath t)"

fun ownerCall :: "event \<Rightarrow> (CreateUserDto \<times> string) list" where
  "ownerCall (FindOrCreate dto s) = [(dto, s)]"
| "ownerCall _ = []"

definition ownerCalls :: "event list \<Rightarrow> (CreateUserDto \<times> string) list" where
  "ownerCalls t = concat (map ownerCall t)"

definition disconnects :: "event list \<Rightarrow> nat" where
  "disconnects t = length (filter (\<lambda>e. e = Disconnect) t)"

text \<open>
  The order the specification asks of a run, as a recogniser of traces: a line is
  delivered only when none is in flight and with the next index; the owner call comes
  after the delivery, the listing call after the owner call, the acknowledgment of
  line \<open>i\<close> after the listing call of line \<open>i\<close>; only then can line \<open>i + 1\<close> be
  delivered. Other events do not matter.
\<close>

datatype flight = Waiting nat | Parsing nat | OwnerResolved nat | ListingCreated nat

fun advance :: "flight \<Rightarrow> event \<Rightarrow> flight option" where
  "advance (Waiting n) (Line i l) = (if i = n then Some (Parsing i) else None)"
| "advance _ (Line i l) = None"
| "advance (Parsing i) (FindOrCreate dto s) = Some (OwnerResolved i)"
| "advance _ (FindOrCreate dto s) = None"
| "advance (OwnerResolved i) (Create dto uid) = Some (ListingCreated i)"
| "advance _ (Create dto uid) = None"
| "advance (ListingCreated i) (Ack j) = (if j = i then Some (Waiting (Suc i)) else None)"
| "advance _ (Ack j) = None"
| "advance f _ = Some f"

fun follow :: "flight \<Rightarrow> event list \<Rightarrow> flight option" where
  "follow f [] = Some f"
| "follow f (e # t) = (case advance f e of None \<Rightarrow> None | Some f' \<Rightarrow> follow f' t)"

definition singleFlight :: "event list \<Rightarrow> bool" where
  "singleFlight t = (follow (Waiting 0) t \<noteq> None)"

text \<open>
  A line is accepted by a command in a state when it parses and both store calls of
  \<^verbatim>\<open>saveOffer\<close> succeed there.
\<close>

definition accepted :: "Imports \<Rightarrow> 'db ImportCommand \<Rightarrow> string \<Rightarrow> 'db world \<Rightarrow> bool" where
  "accepted I cmd l w =
     (case createOffer I l of
        Inl e \<Rightarrow> False
      | Inr offer \<Rightarrow> (case fst (saveOffer I cmd offer w) of Inl e \<Rightarrow> False | Inr _ \<Rightarrow> True))"

text \<open>The owner e-mails a file carries, on the lines that parse.\<close>

fun ownerEmail :: "Imports \<Rightarrow> string \<Rightarrow> string list" where
  "ownerEmail I l = (case createOffer I l of Inl e \<Rightarrow> [] | Inr offer \<Rightarrow> [email (user offer)])"

definition fileEmails :: "Imports \<Rightarrow> string list \<Rightarrow> string set" where
  "fileEmails I ls = set (concat (map (ownerEmail I) ls))"

text \<open>
  Reading a decimal numeral, written without reference to how the command renders
  one: the digits \<open>0\<close> to \<open>9\<close>, most significant first, no empty numeral and no
  leading zero.
\<close>

fun position :: "'a \<Rightarrow> 'a list \<Rightarrow> nat option" where
  "position x [] = None"
| "position x (y # ys) = (if x = y then Some 0 else map_option Suc (position x ys))"

definition digitValue :: "char \<Rightarrow> nat option" where
  "digitValue c = position c ''0123456789''"

fun readDigits :: "nat \<Rightarrow> string \<Rightarrow> nat option" where
  "readDigits acc [] = Some acc"
| "readDigits acc (c # cs) =
     (case digitValue c of None \<Rightarrow> None | Some d \<Rightarrow> readDigits (10 * acc + d) cs)"

definition readDecimal :: "string \<Rightarrow> nat option" where
  "readDecimal ds =
     (if ds = [] \<or> (hd ds = CHR ''0'' \<and> tl ds \<noteq> []) then None else readDigits 0 ds)"

subsection \<open>Names for the steps of a run\<close>

text \<open>
  What the reader's loop does with one line and the command's handler; the state in
  which delivery begins, after a successful connect and the opening of the file; and
  the \<^verbatim>\<open>catch\<close> block of \<^verbatim>\<open>execute\<close>. Each is shown below to be the
  corresponding part of \<open>deliver\<close> or \<open>execute\<close>.
\<close>

definition lineStep :: "Imports \<Rightarrow> 'db ImportCommand \<Rightarrow> nat \<Rightarrow> string \<Rightarrow> 'db world \<Rightarrow> 'db world" where
  "lineStep I cmd i l w = snd (onImportedLine I cmd l (acknowledge i) (emit (Line i l) (w\<lparr>pending := True\<rparr>)))"

definition begun :: "Imports \<Rightarrow> jsstring \<Rightarrow> string \<Rightarrow> string \<Rightarrow> string \<Rightarrow> string \<Rightarrow> string \<Rightarrow> 'db world \<Rightarrow> 'db \<Rightarrow> 'db world" where
  "begun I filename login pw host dbname s w d =
     emit (OpenFile (trim filename))
       ((emit (Connect (getMongoURI I login pw host (DEFAULT_DB_PORT I) dbname)) (w\<lparr>salt := s\<rparr>))
          \<lparr>store := d\<rparr>)"

definition caught :: "Imports \<Rightarrow> jsstring \<Rightarrow> exception \<Rightarrow> 'db world \<Rightarrow> outcome \<times> 'db world" where
  "caught I filename err w =
     (if instanceof_Error err
      then (Returned, emit (ConsoleError (getErrorMessage I err))
                        (emit (ConsoleError (units ''Can't import data from file: '' @ filename)) w))
      else (Raised err, w))"

text \<open>
  Every line of a list is accepted in the state in which delivery reaches it.
\<close>

fun allAccepted :: "Imports \<Rightarrow> 'db ImportCommand \<Rightarrow> nat \<Rightarrow> string list \<Rightarrow> 'db world \<Rightarrow> bool" where
  "allAccepted I cmd i [] w = True"
| "allAccepted I cmd i (l # ls) w =
     (accepted I cmd l w \<and> allAccepted I cmd (Suc i) ls (lineStep I cmd i l w))"

text \<open>
  The console output of the \<^verbatim>\<open>catch\<close> block, and all the events of one call
  of \<^verbatim>\<open>execute\<close>, in terms of the events of the delivery.
\<close>

definition caughtLog :: "Imports \<Rightarrow> jsstring \<Rightarrow> exception \<Rightarrow> event list" where
  "caughtLog I filename err =
     (if instanceof_Error err
      then [ConsoleError (units ''Can't import data from file: '' @ filename),
            ConsoleError (getErrorMessage I err)]
      else [])"

definition runEvents ::
  "Imports \<Rightarrow> 'db ImportCommand \<Rightarrow> filesystem \<Rightarrow> jsstring \<Rightarrow> string \<Rightarrow> string \<Rightarrow> string
     \<Rightarrow> string \<Rightarrow> string \<Rightarrow> 'db world \<Rightarrow> event list" where
  "runEvents I cmd fs filename login pw host dbname s w =
     Connect (getMongoURI I login pw host (DEFAULT_DB_PORT I) dbname) #
     (case databaseClient_connect cmd (getMongoURI I login pw host (DEFAULT_DB_PORT I) dbname) (store w) of
        (Inl e, d) \<Rightarrow> []
      | (Inr x, d) \<Rightarrow>
          OpenFile (trim filename) #
          (case fs (trim filename) of
             Inl e \<Rightarrow> caughtLog I filename e
           | Inr src \<Rightarrow>
               added (begun I filename login pw host dbname s w d)
                 (snd (deliver (onImportedLine I cmd) 0 (lines src)
                         (begun I filename login pw host dbname s w d))) @
               (case fst (deliver (onImportedLine I cmd) 0 (lines src)
                            (begun I filename login pw host dbname s w d)) of
                  None \<Rightarrow> []
                | Some n \<Rightarrow>
                    (case failure src of
                       Some e \<Rightarrow> caughtLog I filename e
                     | None \<Rightarrow> [ConsoleInfo (toString n @ '' rows imported.''), Disconnect]))))"

section \<open>Properties\<close>

subsection \<open>Traces\<close>

lemma added_self [simp]: "added w w = []" by (simp add: added_def)
lemma extends_self [simp]: "extends w w" by (simp add: extends_def)

lemma extends_iff: "extends w w' \<longleftrightarrow> trace w' = trace w @ added w w'"
  unfolding extends_def added_def
  by (metis append_take_drop_id append_eq_conv_conj)

lemma extendsI: "trace w' = trace w @ t \<Longrightarrow> extends w w'"
  by (simp add: extends_def)

lemma added_eq: "trace w' = trace w @ t \<Longrightarrow> added w w' = t"
  by (simp add: added_def)

lemma extends_trans: "extends w w1 \<Longrightarrow> extends w1 w2 \<Longrightarrow> extends w w2"
  by (metis append.assoc extendsI extends_iff)

lemma added_trans: "extends w w1 \<Longrightarrow> extends w1 w2 \<Longrightarrow> added w w2 = added w w1 @ added w1 w2"
  by (metis append.assoc added_eq extends_iff)

lemma acks_append [simp]: "acks (s @ t) = acks s @ acks t" by (simp add: acks_def)
lemma delivered_append [simp]: "delivered (s @ t) = delivered s @ delivered t" by (simp add: delivered_def)
lemma infos_append [simp]: "infos (s @ t) = infos s @ infos t" by (simp add: infos_def)
lemma errors_append [simp]: "errors (s @ t) = errors s @ errors t" by (simp add: errors_def)
lemma opened_append [simp]: "opened (s @ t) = opened s @ opened t" by (simp add: opened_def)
lemma ownerCalls_append [simp]: "ownerCalls (s @ t) = ownerCalls s @ ownerCalls t" by (simp add: ownerCalls_def)
lemma disconnects_append [simp]: "disconnects (s @ t) = disconnects s + disconnects t" by (simp add: disconnects_def)

lemma upt_shift: "[i ..< i + Suc n] = i # [Suc i ..< Suc i + n]"
  by (simp add: upt_conv_Cons)

lemma follow_append: "follow f (s @ t) = (case follow f s of None \<Rightarrow> None | Some f' \<Rightarrow> follow f' t)"
  by (induction s arbitrary: f) (auto split: option.splits)

lemma singleFlight_rejects:
  "\<not> singleFlight [Line 0 l, Ack 0]"
  "\<not> singleFlight [Line 0 l, FindOrCreate dto s, Ack 0]"
  "\<not> singleFlight [Line 0 l, FindOrCreate dto s, Create odto uid, Line 1 l']"
  "\<not> singleFlight [Line 0 l, FindOrCreate dto s, Create odto uid, Ack 0, Line 2 l']"
  "\<not> singleFlight [Line 0 l, Create odto uid]"
  by (simp_all add: singleFlight_def)

lemma lineStep_unfold:
  "lineStep I cmd i l w =
     (case createOffer I l of
        Inl e \<Rightarrow> w\<lparr>pending := True, trace := trace w @ [Line i l]\<rparr>
      | Inr offer \<Rightarrow>
          (case userService_findOrCreate cmd (ownerDto I offer) (salt w) (store w) of
             (Inl e, d1) \<Rightarrow>
               w\<lparr>store := d1, pending := True,
                 trace := trace w @ [Line i l, FindOrCreate (ownerDto I offer) (salt w)]\<rparr>
           | (Inr u, d1) \<Rightarrow>
               (case offerService_create cmd (listingDto offer) (id u) d1 of
                  (Inl e, d2) \<Rightarrow>
                    w\<lparr>store := d2, pending := True,
                      trace := trace w @ [Line i l, FindOrCreate (ownerDto I offer) (salt w),
                                          Create (listingDto offer) (id u)]\<rparr>
                | (Inr x, d2) \<Rightarrow>
                    w\<lparr>store := d2, pending := False,
                      trace := trace w @ [Line i l, FindOrCreate (ownerDto I offer) (salt w),
                                          Create (listingDto offer) (id u), Ack i]\<rparr>)))"
  by (simp add: lineStep_def onImportedLine_def saveOffer_def emit_def acknowledge_def Let_def
           split: sum.splits prod.splits)

declare deliver.simps(2) [simp del]

lemma deliver_Cons:
  "deliver (onImportedLine I cmd) i (l # ls) w =
     (if pending (lineStep I cmd i l w) then (None, lineStep I cmd i l w)
      else deliver (onImportedLine I cmd) (Suc i) ls (lineStep I cmd i l w))"
  by (simp add: lineStep_def Let_def deliver.simps(2))

lemma lineStep_pending: "pending (lineStep I cmd i l w) \<longleftrightarrow> \<not> accepted I cmd l w"
  by (simp add: lineStep_unfold accepted_def saveOffer_def emit_def Let_def split: sum.splits prod.splits)

lemma lineStep_salt [simp]: "salt (lineStep I cmd i l w) = salt w"
  by (simp add: lineStep_unfold split: sum.splits prod.splits)

lemma lineStep_extends [simp]: "extends w (lineStep I cmd i l w)"
  by (simp add: lineStep_unfold extends_def split: sum.splits prod.splits)

lemma lineStep_acks: "acks (added w (lineStep I cmd i l w)) = (if pending (lineStep I cmd i l w) then [] else [i])"
  by (simp add: lineStep_unfold added_def acks_def split: sum.splits prod.splits)

lemma lineStep_delivered [simp]: "delivered (added w (lineStep I cmd i l w)) = [i]"
  by (simp add: lineStep_unfold added_def delivered_def split: sum.splits prod.splits)

lemma lineStep_quiet [simp]:
  "infos (added w (lineStep I cmd i l w)) = []"
  "errors (added w (lineStep I cmd i l w)) = []"
  "opened (added w (lineStep I cmd i l w)) = []"
  "disconnects (added w (lineStep I cmd i l w)) = 0"
  by (simp_all add: lineStep_unfold added_def infos_def errors_def opened_def disconnects_def split: sum.splits prod.splits)

lemma lineStep_follow:
  "follow (Waiting i) (added w (lineStep I cmd i l w)) =
     (if pending (lineStep I cmd i l w)
      then follow (Waiting i) (added w (lineStep I cmd i l w)) else Some (Waiting (Suc i)))"
  "follow (Waiting i) (added w (lineStep I cmd i l w)) \<noteq> None"
  by (simp_all add: lineStep_unfold added_def split: sum.splits prod.splits)

lemma deliver_extends: "extends w (snd (deliver (onImportedLine I cmd) i ls w))"
proof (induction ls arbitrary: i w)
  case Nil
  show ?case by simp
next
  case (Cons l ls)
  show ?case
    using extends_trans [OF lineStep_extends Cons.IH]
    by (simp add: deliver_Cons)
qed

lemma deliver_added_Cons:
  "\<not> pending (lineStep I cmd i l w) \<Longrightarrow>
   added w (snd (deliver (onImportedLine I cmd) i (l # ls) w)) =
     added w (lineStep I cmd i l w) @
     added (lineStep I cmd i l w) (snd (deliver (onImportedLine I cmd) (Suc i) ls (lineStep I cmd i l w)))"
  by (simp add: deliver_Cons added_trans deliver_extends)

lemma deliver_quiet:
  "infos (added w (snd (deliver (onImportedLine I cmd) i ls w))) = []"
  "errors (added w (snd (deliver (onImportedLine I cmd) i ls w))) = []"
  "opened (added w (snd (deliver (onImportedLine I cmd) i ls w))) = []"
  "disconnects (added w (snd (deliver (onImportedLine I cmd) i ls w))) = 0"
proof (induction ls arbitrary: i w)
  case Nil
  { case 1 show ?case by (simp add: infos_def) }
  { case 2 show ?case by (simp add: errors_def) }
  { case 3 show ?case by (simp add: opened_def) }
  { case 4 show ?case by (simp add: disconnects_def) }
next
  case (Cons l ls)
  { case 1 show ?case
      by (cases "pending (lineStep I cmd i l w)") (simp_all add: deliver_added_Cons Cons.IH, simp add: deliver_Cons) }
  { case 2 show ?case
      by (cases "pending (lineStep I cmd i l w)") (simp_all add: deliver_added_Cons Cons.IH, simp add: deliver_Cons) }
  { case 3 show ?case
      by (cases "pending (lineStep I cmd i l w)") (simp_all add: deliver_added_Cons Cons.IH, simp add: deliver_Cons) }
  { case 4 show ?case
      by (cases "pending (lineStep I cmd i l w)") (simp_all add: deliver_added_Cons Cons.IH, simp add: deliver_Cons) }
qed

lemma deliver_acks:
  "acks (added w (snd (deliver (onImportedLine I cmd) i ls w))) =
     [i ..< i + length (acks (added w (snd (deliver (onImportedLine I cmd) i ls w))))]"
proof (induction ls arbitrary: i w)
  case Nil
  show ?case by (simp add: acks_def)
next
  case (Cons l ls)
  show ?case
  proof (cases "pending (lineStep I cmd i l w)")
    case True
    then show ?thesis by (simp add: deliver_Cons lineStep_acks)
  next
    case False
    let ?w1 = "lineStep I cmd i l w"
    let ?t = "added ?w1 (snd (deliver (onImportedLine I cmd) (Suc i) ls ?w1))"
    have "acks ?t = [Suc i ..< Suc i + length (acks ?t)]" by (rule Cons.IH)
    then have "i # acks ?t = [i ..< i + Suc (length (acks ?t))]"
      by (simp only: upt_shift)
    with False show ?thesis by (simp add: deliver_added_Cons lineStep_acks)
  qed
qed

lemma deliver_follow:
  "follow (Waiting i) (added w (snd (deliver (onImportedLine I cmd) i ls w))) \<noteq> None"
  "fst (deliver (onImportedLine I cmd) i ls w) = Some n \<Longrightarrow>
     follow (Waiting i) (added w (snd (deliver (onImportedLine I cmd) i ls w))) = Some (Waiting n)"
proof (induction ls arbitrary: i w)
  case Nil
  { case 1 show ?case by simp }
  { case 2 then show ?case by simp }
next
  case (Cons l ls)
  { case 1 show ?case
    proof (cases "pending (lineStep I cmd i l w)")
      case True then show ?thesis by (simp add: deliver_Cons lineStep_follow(2))
    next
      case False
      then have "follow (Waiting i) (added w (lineStep I cmd i l w)) = Some (Waiting (Suc i))"
        using lineStep_follow(1) by metis
      with False show ?thesis by (simp add: deliver_added_Cons follow_append Cons.IH(1))
    qed }
  { case 2 show ?case
    proof (cases "pending (lineStep I cmd i l w)")
      case True with 2 show ?thesis by (simp add: deliver_Cons)
    next
      case False
      then have "follow (Waiting i) (added w (lineStep I cmd i l w)) = Some (Waiting (Suc i))"
        using lineStep_follow(1) by metis
      moreover from False 2 have "fst (deliver (onImportedLine I cmd) (Suc i) ls (lineStep I cmd i l w)) = Some n"
        by (simp add: deliver_Cons)
      ultimately show ?thesis using False by (simp add: deliver_added_Cons follow_append Cons.IH(2))
    qed }
qed

lemma deliver_all_accepted:
  assumes "\<forall>l\<in>set ls. \<forall>v. accepted I cmd l v"
  shows "fst (deliver (onImportedLine I cmd) i ls w) = Some (i + length ls) \<and>
     acks (added w (snd (deliver (onImportedLine I cmd) i ls w))) = [i ..< i + length ls] \<and>
     delivered (added w (snd (deliver (onImportedLine I cmd) i ls w))) = [i ..< i + length ls]"
  using assms
proof (induction ls arbitrary: i w)
  case Nil
  show ?case by (simp add: acks_def delivered_def)
next
  case (Cons l ls)
  let ?w1 = "lineStep I cmd i l w"
  let ?r = "deliver (onImportedLine I cmd) (Suc i) ls ?w1"
  from Cons.prems have np: "\<not> pending ?w1" by (simp add: lineStep_pending)
  then have eq: "deliver (onImportedLine I cmd) i (l # ls) w = ?r"
    by (simp add: deliver_Cons)
  have ad: "added w (snd ?r) = added w ?w1 @ added ?w1 (snd ?r)"
    by (rule added_trans [OF lineStep_extends deliver_extends])
  from Cons.prems have ih: "fst ?r = Some (Suc i + length ls) \<and>
      acks (added ?w1 (snd ?r)) = [Suc i ..< Suc i + length ls] \<and>
      delivered (added ?w1 (snd ?r)) = [Suc i ..< Suc i + length ls]"
    by (intro Cons.IH) simp
  have up: "[i ..< i + length (l # ls)] = i # [Suc i ..< Suc i + length ls]"
    using upt_shift [of i "length ls"] by simp
  show ?case
    unfolding eq ad up using ih np by (simp add: lineStep_acks)
qed

subsection \<open>The shape of a run\<close>

lemma emit_simps [simp]:
  "store (emit e w) = store w"
  "salt (emit e w) = salt w"
  "pending (emit e w) = pending w"
  "trace (emit e w) = trace w @ [e]"
  by (simp_all add: emit_def)

lemma begun_simps [simp]:
  "store (begun I filename login pw host dbname s w d) = d"
  "salt (begun I filename login pw host dbname s w d) = s"
  "pending (begun I filename login pw host dbname s w d) = pending w"
  "trace (begun I filename login pw host dbname s w d) =
     trace w @ [Connect (getMongoURI I login pw host (DEFAULT_DB_PORT I) dbname), OpenFile (trim filename)]"
  by (simp_all add: begun_def emit_def)

lemma execute_connect_fails:
  "databaseClient_connect cmd (getMongoURI I login pw host (DEFAULT_DB_PORT I) dbname) (store w) = (Inl e, d) \<Longrightarrow>
   execute I cmd fs filename login pw host dbname s w =
     (Raised e, w\<lparr>store := d, salt := s,
        trace := trace w @ [Connect (getMongoURI I login pw host (DEFAULT_DB_PORT I) dbname)]\<rparr>)"
  by (simp add: execute_def emit_def Let_def)

lemma execute_open_fails:
  "databaseClient_connect cmd (getMongoURI I login pw host (DEFAULT_DB_PORT I) dbname) (store w) = (Inr x, d) \<Longrightarrow>
   fs (trim filename) = Inl e \<Longrightarrow>
   execute I cmd fs filename login pw host dbname s w =
     caught I filename e (begun I filename login pw host dbname s w d)"
  by (simp add: execute_def read_def Let_def caught_def begun_def)

lemma onCompleteImport_snd:
  "snd (onCompleteImport cmd n w) =
     w\<lparr>store := snd (databaseClient_disconnect cmd (store w)),
       trace := trace w @ [ConsoleInfo (toString n @ '' rows imported.''), Disconnect]\<rparr>"
  by (simp add: onCompleteImport_def emit_def Let_def split: prod.splits)

lemma execute_reads:
  "databaseClient_connect cmd (getMongoURI I login pw host (DEFAULT_DB_PORT I) dbname) (store w) = (Inr x, d) \<Longrightarrow>
   fs (trim filename) = Inr src \<Longrightarrow>
   execute I cmd fs filename login pw host dbname s w =
     (case deliver (onImportedLine I cmd) 0 (lines src) (begun I filename login pw host dbname s w d) of
        (None, w2) \<Rightarrow> (Stalled, w2)
      | (Some n, w2) \<Rightarrow>
          (case failure src of
             Some e \<Rightarrow> caught I filename e w2
           | None \<Rightarrow> (Returned, snd (onCompleteImport cmd n w2))))"
  by (cases "deliver (onImportedLine I cmd) 0 (lines src) (begun I filename login pw host dbname s w d)";
      cases "failure src")
     (auto simp: execute_def read_def Let_def caught_def begun_def split: option.splits)

lemma caught_trace: "trace (snd (caught I filename e w)) = trace w @ caughtLog I filename e"
  by (simp add: caught_def caughtLog_def)

lemma execute_trace:
  "trace (snd (execute I cmd fs filename login pw host dbname s w)) =
     trace w @ runEvents I cmd fs filename login pw host dbname s w"
proof (cases "databaseClient_connect cmd (getMongoURI I login pw host (DEFAULT_DB_PORT I) dbname) (store w)")
  case (Pair r d)
  show ?thesis
  proof (cases r)
    case (Inl e)
    with Pair show ?thesis by (simp add: execute_connect_fails runEvents_def)
  next
    case (Inr x)
    note con = Pair [unfolded Inr]
    show ?thesis
    proof (cases "fs (trim filename)")
      case (Inl e)
      show ?thesis
        by (simp add: execute_open_fails [where fs = fs and filename = filename, OF con Inl]
              con Inl runEvents_def caught_trace)
    next
      case (Inr src)
      let ?b = "begun I filename login pw host dbname s w d"
      let ?r = "deliver (onImportedLine I cmd) 0 (lines src) ?b"
      have tr: "trace (snd ?r) = trace ?b @ added ?b (snd ?r)"
        using deliver_extends [of ?b I cmd 0 "lines src"] by (simp add: extends_iff)
      obtain k w2 where r: "?r = (k, w2)" by (cases ?r)
      from tr r have tr2: "trace w2 = trace ?b @ added ?b w2" by simp
      show ?thesis
        by (cases k; cases "failure src")
           (simp_all add: execute_reads [where fs = fs and filename = filename, OF con Inr]
              con Inr r runEvents_def caught_trace onCompleteImport_snd tr2)
    qed
  qed
qed

lemma execute_added:
  "added w (snd (execute I cmd fs filename login pw host dbname s w)) =
     runEvents I cmd fs filename login pw host dbname s w"
  by (rule added_eq) (rule execute_trace)

lemma projections_simps [simp]:
  "acks [] = []" "acks (e # t) = ackIndex e @ acks t"
  "delivered [] = []" "delivered (e # t) = lineIndex e @ delivered t"
  "infos [] = []" "infos (e # t) = infoText e @ infos t"
  "errors [] = []" "errors (e # t) = errorText e @ errors t"
  "opened [] = []" "opened (e # t) = openedPath e @ opened t"
  "ownerCalls [] = []" "ownerCalls (e # t) = ownerCall e @ ownerCalls t"
  "disconnects [] = 0" "disconnects (e # t) = (if e = Disconnect then 1 else 0) + disconnects t"
  by (simp_all add: acks_def delivered_def infos_def errors_def opened_def ownerCalls_def disconnects_def)

lemma advance_other [simp]:
  "advance f (Connect u) = Some f"
  "advance f (OpenFile p) = Some f"
  "advance f (ConsoleInfo m) = Some f"
  "advance f (ConsoleError m') = Some f"
  "advance f Disconnect = Some f"
  by (cases f; simp)+

lemma caughtLog_quiet [simp]:
  "acks (caughtLog I filename e) = []"
  "delivered (caughtLog I filename e) = []"
  "infos (caughtLog I filename e) = []"
  "opened (caughtLog I filename e) = []"
  "ownerCalls (caughtLog I filename e) = []"
  "disconnects (caughtLog I filename e) = 0"
  "follow f (caughtLog I filename e) = Some f"
  by (simp_all add: caughtLog_def)

lemma lineStep_ownerCalls:
  "ownerCalls (added w (lineStep I cmd i l w)) =
     (case createOffer I l of Inl e \<Rightarrow> [] | Inr offer \<Rightarrow> [(ownerDto I offer, salt w)])"
  by (simp add: lineStep_unfold added_def split: sum.splits prod.splits)

lemma deliver_ownerCalls:
  "(dto, s') \<in> set (ownerCalls (added w (snd (deliver (onImportedLine I cmd) i ls w)))) \<Longrightarrow>
     s' = salt w \<and> (\<exists>l\<in>set ls. \<exists>offer. createOffer I l = Inr offer \<and> dto = ownerDto I offer)"
proof (induction ls arbitrary: i w)
  case Nil
  then show ?case by simp
next
  case (Cons l ls)
  let ?w1 = "lineStep I cmd i l w"
  show ?case
  proof (cases "pending ?w1")
    case True
    with Cons.prems show ?thesis
      by (cases "createOffer I l") (auto simp: deliver_Cons lineStep_ownerCalls)
  next
    case False
    with Cons.prems have
      "(dto, s') \<in> set (ownerCalls (added w ?w1)) \<or>
       (dto, s') \<in> set (ownerCalls (added ?w1 (snd (deliver (onImportedLine I cmd) (Suc i) ls ?w1))))"
      by (simp add: deliver_added_Cons)
    then show ?thesis
    proof
      assume "(dto, s') \<in> set (ownerCalls (added w ?w1))"
      then show ?thesis by (cases "createOffer I l") (auto simp: lineStep_ownerCalls)
    next
      assume "(dto, s') \<in> set (ownerCalls (added ?w1 (snd (deliver (onImportedLine I cmd) (Suc i) ls ?w1))))"
      from Cons.IH [OF this] show ?thesis by auto
    qed
  qed
qed

lemma runEvents_ownerCalls:
  "ownerCalls (runEvents I cmd fs filename login pw host dbname s w) =
     (case databaseClient_connect cmd (getMongoURI I login pw host (DEFAULT_DB_PORT I) dbname) (store w) of
        (Inl e, d) \<Rightarrow> []
      | (Inr x, d) \<Rightarrow>
          (case fs (trim filename) of
             Inl e \<Rightarrow> []
           | Inr src \<Rightarrow>
               ownerCalls (added (begun I filename login pw host dbname s w d)
                 (snd (deliver (onImportedLine I cmd) 0 (lines src)
                         (begun I filename login pw host dbname s w d))))))"
  by (simp add: runEvents_def split: prod.splits sum.splits option.splits)

lemma deliver_Some:
  assumes "fst (deliver (onImportedLine I cmd) i ls w) = Some n"
  shows "n = i + length ls \<and>
     acks (added w (snd (deliver (onImportedLine I cmd) i ls w))) = [i ..< i + length ls] \<and>
     delivered (added w (snd (deliver (onImportedLine I cmd) i ls w))) = [i ..< i + length ls]"
  using assms
proof (induction ls arbitrary: i w)
  case Nil
  then show ?case by simp
next
  case (Cons l ls)
  let ?w1 = "lineStep I cmd i l w"
  let ?r = "deliver (onImportedLine I cmd) (Suc i) ls ?w1"
  from Cons.prems have np: "\<not> pending ?w1" by (auto simp: deliver_Cons split: if_splits)
  then have eq: "deliver (onImportedLine I cmd) i (l # ls) w = ?r"
    by (simp add: deliver_Cons)
  have ad: "added w (snd ?r) = added w ?w1 @ added ?w1 (snd ?r)"
    by (rule added_trans [OF lineStep_extends deliver_extends])
  from Cons.prems eq have "fst ?r = Some n" by simp
  then have ih: "n = Suc i + length ls \<and>
      acks (added ?w1 (snd ?r)) = [Suc i ..< Suc i + length ls] \<and>
      delivered (added ?w1 (snd ?r)) = [Suc i ..< Suc i + length ls]"
    by (rule Cons.IH)
  have up: "[i ..< i + length (l # ls)] = i # [Suc i ..< Suc i + length ls]"
    using upt_shift [of i "length ls"] by simp
  show ?case
    unfolding eq ad up using ih np by (simp add: lineStep_acks)
qed

lemma trim_surrounding:
  assumes a: "\<forall>c\<in>set a. isWhiteSpace c" and b: "\<forall>c\<in>set b. isWhiteSpace c"
  shows "trim (a @ p @ b) = trim p"
proof -
  have 1: "dropWhile isWhiteSpace (a @ p @ b) = dropWhile isWhiteSpace (p @ b)"
    by (rule dropWhile_append2) (use a in simp)
  show ?thesis
  proof (cases "\<forall>c\<in>set p. isWhiteSpace c")
    case True
    with b have 3: "dropWhile isWhiteSpace (p @ b) = []" and 4: "dropWhile isWhiteSpace p = []"
      by auto
    show ?thesis unfolding trim_def 1 3 4 by (rule refl)
  next
    case False
    then obtain c where "c \<in> set p" "\<not> isWhiteSpace c" by blast
    then have 2: "dropWhile isWhiteSpace (p @ b) = dropWhile isWhiteSpace p @ b"
      by (rule dropWhile_append1)
    have "dropWhile isWhiteSpace (rev b @ rev (dropWhile isWhiteSpace p)) =
          dropWhile isWhiteSpace (rev (dropWhile isWhiteSpace p))"
      by (rule dropWhile_append2) (use b in simp)
    then show ?thesis unfolding trim_def 1 2 by simp
  qed
qed

lemma runEvents_opened:
  "opened (runEvents I cmd fs filename login pw host dbname s w) =
     (case databaseClient_connect cmd (getMongoURI I login pw host (DEFAULT_DB_PORT I) dbname) (store w) of
        (Inl e, d) \<Rightarrow> []
      | (Inr x, d) \<Rightarrow> [trim filename])"
  by (simp add: runEvents_def deliver_quiet split: prod.splits sum.splits option.splits)

lemma execute_trim_only:
  assumes "trim f1 = trim f2"
  shows "fst (execute I cmd fs f1 login pw host dbname s w) =
           fst (execute I cmd fs f2 login pw host dbname s w)"
    and "store (snd (execute I cmd fs f1 login pw host dbname s w)) =
           store (snd (execute I cmd fs f2 login pw host dbname s w))"
  using assms
  by (auto simp: execute_def Let_def split: prod.splits sum.splits outcome.splits)

lemma caughtLog_errors:
  "errors (caughtLog I filename e) =
     (if instanceof_Error e
      then [units ''Can't import data from file: '' @ filename, getErrorMessage I e] else [])"
  by (simp add: caughtLog_def)

lemma caught_fst: "fst (caught I filename e w) = (if instanceof_Error e then Returned else Raised e)"
  by (simp add: caught_def)


lemma runEvents_acks:
  "acks (runEvents I cmd fs filename login pw host dbname s w) =
     (case databaseClient_connect cmd (getMongoURI I login pw host (DEFAULT_DB_PORT I) dbname) (store w) of
        (Inl e, d) \<Rightarrow> []
      | (Inr x, d) \<Rightarrow>
          (case fs (trim filename) of
             Inl e \<Rightarrow> []
           | Inr src \<Rightarrow>
               acks (added (begun I filename login pw host dbname s w d)
                 (snd (deliver (onImportedLine I cmd) 0 (lines src)
                         (begun I filename login pw host dbname s w d))))))"
  by (simp add: runEvents_def split: prod.splits sum.splits option.splits)

lemma runEvents_follow: "follow (Waiting 0) (runEvents I cmd fs filename login pw host dbname s w) \<noteq> None"
proof -
  obtain r d where con: "databaseClient_connect cmd (getMongoURI I login pw host (DEFAULT_DB_PORT I) dbname) (store w) = (r, d)"
    by (cases "databaseClient_connect cmd (getMongoURI I login pw host (DEFAULT_DB_PORT I) dbname) (store w)")
  show ?thesis
  proof (cases r)
    case (Inl e)
    with con show ?thesis by (simp add: runEvents_def)
  next
    case (Inr x)
    note con = con [unfolded Inr]
    show ?thesis
    proof (cases "fs (trim filename)")
      case (Inl e)
      with con show ?thesis by (simp add: runEvents_def)
    next
      case (Inr src)
      let ?b = "begun I filename login pw host dbname s w d"
      let ?r = "deliver (onImportedLine I cmd) 0 (lines src) ?b"
      obtain f' where f': "follow (Waiting 0) (added ?b (snd ?r)) = Some f'"
        using deliver_follow(1) [of 0 ?b I cmd "lines src"] by blast
      show ?thesis
        using con Inr f'
        by (simp add: runEvents_def follow_append split: option.splits)
    qed
  qed
qed

subsection \<open>Trimming, numerals, acceptance\<close>

lemma trim_core:
  assumes "p = [] \<or> (\<not> isWhiteSpace (hd p) \<and> \<not> isWhiteSpace (last p))"
  shows "trim p = p"
proof (cases "p = []")
  case True
  then show ?thesis by (simp add: trim_def)
next
  case False
  with assms have h: "\<not> isWhiteSpace (hd p)" and l: "\<not> isWhiteSpace (last p)" by auto
  from False h have 1: "dropWhile isWhiteSpace p = p" by (cases p) auto
  from False l have 2: "dropWhile isWhiteSpace (rev p) = rev p"
    by (cases "rev p") (auto simp: hd_rev [symmetric])
  show ?thesis by (simp add: trim_def 1 2)
qed

lemma trim_decompose:
  "\<exists>a b. s = a @ trim s @ b \<and> (\<forall>c\<in>set a. isWhiteSpace c) \<and> (\<forall>c\<in>set b. isWhiteSpace c) \<and>
         (trim s = [] \<or> (\<not> isWhiteSpace (hd (trim s)) \<and> \<not> isWhiteSpace (last (trim s))))"
proof -
  let ?a = "takeWhile isWhiteSpace s"
  let ?r = "dropWhile isWhiteSpace s"
  let ?b = "rev (takeWhile isWhiteSpace (rev ?r))"
  have t: "trim s = rev (dropWhile isWhiteSpace (rev ?r))" by (simp add: trim_def)
  have "rev ?r = takeWhile isWhiteSpace (rev ?r) @ dropWhile isWhiteSpace (rev ?r)" by simp
  then have rb: "?r = trim s @ ?b" unfolding t by (metis rev_append rev_rev_ident)
  then have s: "s = ?a @ trim s @ ?b" by (metis takeWhile_dropWhile_id)
  have wa: "\<forall>c\<in>set ?a. isWhiteSpace c" by (auto dest: set_takeWhileD)
  have wb: "\<forall>c\<in>set ?b. isWhiteSpace c" by (auto dest: set_takeWhileD)
  have core: "trim s = [] \<or> (\<not> isWhiteSpace (hd (trim s)) \<and> \<not> isWhiteSpace (last (trim s)))"
  proof (cases "trim s = []")
    case True then show ?thesis by simp
  next
    case False
    then have ne: "dropWhile isWhiteSpace (rev ?r) \<noteq> []" by (simp add: t)
    then have l: "\<not> isWhiteSpace (last (trim s))"
      unfolding t by (simp add: last_rev hd_dropWhile)
    have rne: "?r \<noteq> []"
    proof
      assume "?r = []"
      then have "dropWhile isWhiteSpace (rev ?r) = []" by (simp only: rev.simps dropWhile.simps)
      with ne show False by contradiction
    qed
    then have hr: "\<not> isWhiteSpace (hd ?r)" by (rule hd_dropWhile)
    from rb False have "hd ?r = hd (trim s)" by (metis hd_append2)
    with hr l show ?thesis by simp
  qed
  from s wa wb core show ?thesis by blast
qed

lemma digitChar_values:
  "digitChar 0 = CHR ''0''" "digitChar 1 = CHR ''1''" "digitChar 2 = CHR ''2''"
  "digitChar 3 = CHR ''3''" "digitChar 4 = CHR ''4''" "digitChar 5 = CHR ''5''"
  "digitChar 6 = CHR ''6''" "digitChar 7 = CHR ''7''" "digitChar 8 = CHR ''8''"
  "digitChar 9 = CHR ''9''" "digitChar (Suc 0) = CHR ''1''"
  by code_simp+

lemma digitValue_digitChar: "d < 10 \<Longrightarrow> digitValue (digitChar d) = Some d"
proof -
  assume "d < 10"
  then have "d \<in> {0, 1, 2, 3, 4, 5, 6, 7, 8, 9}" by auto
  then show ?thesis
    by (auto simp: digitChar_values digitValue_def)
qed

lemma digitChar_nonzero: "0 < d \<Longrightarrow> d < 10 \<Longrightarrow> digitChar d \<noteq> CHR ''0''"
proof -
  assume "0 < d" "d < 10"
  then have "d \<in> {1, 2, 3, 4, 5, 6, 7, 8, 9}" by auto
  then show ?thesis
    by (auto simp: digitChar_values)
qed

lemma readDigits_snoc:
  "readDigits acc (ds @ [c]) =
     (case readDigits acc ds of
        None \<Rightarrow> None
      | Some v \<Rightarrow> (case digitValue c of None \<Rightarrow> None | Some d \<Rightarrow> Some (10 * v + d)))"
  by (induction ds arbitrary: acc) (auto split: option.splits)

lemma readDigits_toString: "readDigits 0 (toString n) = Some n"
proof (induction n rule: toString.induct)
  case (1 n)
  show ?case
  proof (cases "10 \<le> n")
    case True
    then have "toString n = toString (n div 10) @ [digitChar (n mod 10)]"
      by (subst toString.simps) simp
    with 1 [OF True] show ?thesis
      by (simp add: readDigits_snoc digitValue_digitChar)
  next
    case False
    then have "toString n = [digitChar n]" by (subst toString.simps) simp
    with False show ?thesis by (simp add: digitValue_digitChar)
  qed
qed

lemma toString_hd: "toString n \<noteq> [] \<and> (0 < n \<longrightarrow> hd (toString n) \<noteq> CHR ''0'')"
proof (induction n rule: toString.induct)
  case (1 n)
  show ?case
  proof (cases "10 \<le> n")
    case True
    then have e: "toString n = toString (n div 10) @ [digitChar (n mod 10)]"
      by (subst toString.simps) simp
    from True have "0 < n div 10" by simp
    with 1 [OF True] show ?thesis by (simp add: e)
  next
    case False
    then have e: "toString n = [digitChar n]" by (subst toString.simps) simp
    from False show ?thesis unfolding e by (auto simp: digitChar_nonzero)
  qed
qed

lemma toString_zero: "toString 0 = ''0''"
  by (subst toString.simps) (simp add: digitChar_values)

lemma readDecimal_toString: "readDecimal (toString n) = Some n"
proof (cases "n = 0")
  case True
  then show ?thesis by (simp add: toString_zero readDecimal_def digitValue_def)
next
  case False
  with toString_hd [of n] show ?thesis
    by (simp add: readDecimal_def readDigits_toString)
qed

lemma allAccepted_iff:
  "allAccepted I cmd i ls w \<longleftrightarrow> fst (deliver (onImportedLine I cmd) i ls w) \<noteq> None"
  by (induction ls arbitrary: i w) (simp_all add: deliver_Cons lineStep_pending)




lemma execute_stalled_iff:
  assumes "databaseClient_connect cmd (getMongoURI I login pw host (DEFAULT_DB_PORT I) dbname) (store w) = (Inr x, d)"
      and "fs (trim filename) = Inr src"
  shows "fst (execute I cmd fs filename login pw host dbname s w) = Stalled \<longleftrightarrow>
         fst (deliver (onImportedLine I cmd) 0 (lines src) (begun I filename login pw host dbname s w d)) = None"
proof -
  obtain k w2 where r: "deliver (onImportedLine I cmd) 0 (lines src)
      (begun I filename login pw host dbname s w d) = (k, w2)"
    by (cases "deliver (onImportedLine I cmd) 0 (lines src) (begun I filename login pw host dbname s w d)")
  show ?thesis
    using execute_reads [where fs = fs and filename = filename and s = s, OF assms] r
    by (cases k; cases "failure src") (simp_all add: caught_fst)
qed

lemma summary_text:
  assumes "fs (trim filename) = Inr (Source ls None)"
      and "fst (execute I cmd fs filename login pw host dbname s w) = Returned"
  shows "infos (added w (snd (execute I cmd fs filename login pw host dbname s w))) =
           [toString (length ls) @ '' rows imported.''] \<and>
         delivered (added w (snd (execute I cmd fs filename login pw host dbname s w))) =
           [0 ..< length ls]"
proof -
  obtain r d where con: "databaseClient_connect cmd (getMongoURI I login pw host (DEFAULT_DB_PORT I) dbname) (store w) = (r, d)"
    by (cases "databaseClient_connect cmd (getMongoURI I login pw host (DEFAULT_DB_PORT I) dbname) (store w)")
  from assms(2) con obtain x where r: "r = Inr x"
    by (cases r) (simp_all add: execute_connect_fails)
  note con = con [unfolded r]
  let ?b = "begun I filename login pw host dbname s w d"
  let ?r = "deliver (onImportedLine I cmd) 0 ls ?b"
  obtain k w2 where r2: "?r = (k, w2)" by (cases ?r)
  have ex: "execute I cmd fs filename login pw host dbname s w =
     (case k of None \<Rightarrow> (Stalled, w2) | Some n \<Rightarrow> (Returned, snd (onCompleteImport cmd n w2)))"
    using execute_reads [where fs = fs and filename = filename and s = s, OF con assms(1)] r2
    by (cases k) simp_all
  with assms(2) r2 obtain n where n: "fst ?r = Some n"
    by (cases k) simp_all
  from deliver_Some [OF n] have
    "n = length ls" and "delivered (added ?b (snd ?r)) = [0 ..< length ls]"
    by simp_all
  then show ?thesis
    using con assms(1) n
    by (simp add: execute_added runEvents_def deliver_quiet)
qed


subsection \<open>The store in memory\<close>

lemma fileEmails_Nil [simp]: "fileEmails I [] = {}"
  by (simp add: fileEmails_def)

lemma fileEmails_Cons:
  "createOffer I l = Inr offer \<Longrightarrow> fileEmails I (l # ls) = insert (email (user offer)) (fileEmails I ls)"
  by (simp add: fileEmails_def)

lemma find_SomeD: "find P xs = Some x \<Longrightarrow> x \<in> set xs \<and> P x"
  by (induction xs) (auto split: if_splits)

lemma findOrCreate_users:
  "users (snd (DefaultUserService_findOrCreate dto s d)) =
     (if email dto \<in> set (map email (users d)) then users d
      else users d @ [\<lparr>userName = userName dto, email = email dto, avatarPath = avatarPath dto,
                       userType = userType dto, id = length (users d), credential = (password dto, s)\<rparr>])"
proof (cases "find (\<lambda>u. email u = email dto) (users d)")
  case None
  then have "email dto \<notin> set (map email (users d))"
    by (auto simp: find_None_iff)
  with None show ?thesis
    by (simp add: DefaultUserService_findOrCreate_def Let_def)
next
  case (Some u)
  from find_SomeD [OF Some] have "email dto \<in> set (map email (users d))"
    by (metis image_eqI set_map)
  with Some show ?thesis
    by (simp add: DefaultUserService_findOrCreate_def)
qed

lemma findOrCreate_rest [simp]:
  "offers (snd (DefaultUserService_findOrCreate dto s d)) = offers d"
  "target (snd (DefaultUserService_findOrCreate dto s d)) = target d"
  "connected (snd (DefaultUserService_findOrCreate dto s d)) = connected d"
  "\<exists>u. fst (DefaultUserService_findOrCreate dto s d) = Inr u"
  by (simp_all add: DefaultUserService_findOrCreate_def Let_def split: option.splits)

lemma default_accepts: "createOffer I l = Inr offer \<Longrightarrow> accepted I defaultCommand l v"
  by (simp add: accepted_def saveOffer_def defaultCommand_def
        DefaultUserService_findOrCreate_def DefaultOfferService_create_def Let_def
        split: option.splits)

lemma lineStep_default:
  assumes "createOffer I l = Inr offer"
  shows "users (store (lineStep I defaultCommand i l w)) =
           users (snd (DefaultUserService_findOrCreate (ownerDto I offer) (salt w) (store w)))"
    and "length (offers (store (lineStep I defaultCommand i l w))) = Suc (length (offers (store w)))"
    and "target (store (lineStep I defaultCommand i l w)) = target (store w)"
proof -
  obtain r d1 where foc: "DefaultUserService_findOrCreate (ownerDto I offer) (salt w) (store w) = (r, d1)"
    by (cases "DefaultUserService_findOrCreate (ownerDto I offer) (salt w) (store w)")
  with findOrCreate_rest(4) [of "ownerDto I offer" "salt w" "store w"]
  obtain u where r: "r = Inr u" by auto
  from foc have d1: "offers d1 = offers (store w)" "target d1 = target (store w)"
    using findOrCreate_rest(1,2) [of "ownerDto I offer" "salt w" "store w"] by simp_all
  have st: "store (lineStep I defaultCommand i l w) =
      d1\<lparr>offers := offers d1 @ [CreateOfferDto.extend (listingDto offer) (OfferEntity.fields (id u))]\<rparr>"
    using assms foc r
    by (simp add: lineStep_unfold defaultCommand_def DefaultOfferService_create_def)
  show "users (store (lineStep I defaultCommand i l w)) =
           users (snd (DefaultUserService_findOrCreate (ownerDto I offer) (salt w) (store w)))"
    by (simp add: st foc)
  show "length (offers (store (lineStep I defaultCommand i l w))) = Suc (length (offers (store w)))"
    by (simp add: st d1)
  show "target (store (lineStep I defaultCommand i l w)) = target (store w)"
    by (simp add: st d1)
qed

lemma lineStep_default_emails:
  assumes "createOffer I l = Inr offer"
  shows "set (map email (users (store (lineStep I defaultCommand i l w)))) =
           insert (email (user offer)) (set (map email (users (store w))))"
    and "distinct (map email (users (store w))) \<Longrightarrow>
           distinct (map email (users (store (lineStep I defaultCommand i l w))))"
    and "email (user offer) \<in> set (map email (users (store w))) \<Longrightarrow>
           users (store (lineStep I defaultCommand i l w)) = users (store w)"
    and "take (length (users (store w))) (users (store (lineStep I defaultCommand i l w))) =
           users (store w)"
  by (auto simp: lineStep_default(1) [OF assms] findOrCreate_users ownerDto_def)

lemma deliver_default_Cons:
  "createOffer I l = Inr offer \<Longrightarrow>
   deliver (onImportedLine I defaultCommand) i (l # ls) w =
     deliver (onImportedLine I defaultCommand) (Suc i) ls (lineStep I defaultCommand i l w)"
  by (simp add: deliver_Cons lineStep_pending default_accepts)

lemma deliver_default_offers:
  "\<forall>l\<in>set ls. \<exists>offer. createOffer I l = Inr offer \<Longrightarrow>
   length (offers (store (snd (deliver (onImportedLine I defaultCommand) i ls w)))) =
     length (offers (store w)) + length ls"
proof (induction ls arbitrary: i w)
  case Nil
  show ?case by simp
next
  case (Cons l ls)
  then obtain offer where p: "createOffer I l = Inr offer"
    and rest: "\<forall>l\<in>set ls. \<exists>offer. createOffer I l = Inr offer" by auto
  show ?case
    by (simp add: deliver_default_Cons [OF p] Cons.IH [OF rest] lineStep_default(2) [OF p])
qed

lemma deliver_default_target:
  "\<forall>l\<in>set ls. \<exists>offer. createOffer I l = Inr offer \<Longrightarrow>
   target (store (snd (deliver (onImportedLine I defaultCommand) i ls w))) = target (store w)"
proof (induction ls arbitrary: i w)
  case Nil
  show ?case by simp
next
  case (Cons l ls)
  then obtain offer where p: "createOffer I l = Inr offer"
    and rest: "\<forall>l\<in>set ls. \<exists>offer. createOffer I l = Inr offer" by auto
  show ?case
    by (simp add: deliver_default_Cons [OF p] Cons.IH [OF rest] lineStep_default(3) [OF p])
qed

lemma deliver_default_emails:
  "\<forall>l\<in>set ls. \<exists>offer. createOffer I l = Inr offer \<Longrightarrow>
   set (map email (users (store (snd (deliver (onImportedLine I defaultCommand) i ls w))))) =
     set (map email (users (store w))) \<union> fileEmails I ls"
proof (induction ls arbitrary: i w)
  case Nil
  show ?case by simp
next
  case (Cons l ls)
  then obtain offer where p: "createOffer I l = Inr offer"
    and rest: "\<forall>l\<in>set ls. \<exists>offer. createOffer I l = Inr offer" by auto
  let ?w1 = "lineStep I defaultCommand i l w"
  let ?w2 = "snd (deliver (onImportedLine I defaultCommand) (Suc i) ls ?w1)"
  have "set (map email (users (store ?w2))) = set (map email (users (store ?w1))) \<union> fileEmails I ls"
    using rest by (rule Cons.IH)
  then show ?case
    using lineStep_default_emails(1) [OF p, of i w]
    by (simp add: deliver_default_Cons [OF p] fileEmails_Cons [OF p])
qed

lemma deliver_default_distinct:
  "\<forall>l\<in>set ls. \<exists>offer. createOffer I l = Inr offer \<Longrightarrow>
   distinct (map email (users (store w))) \<Longrightarrow>
   distinct (map email (users (store (snd (deliver (onImportedLine I defaultCommand) i ls w)))))"
proof (induction ls arbitrary: i w)
  case Nil
  then show ?case by simp
next
  case (Cons l ls)
  from Cons.prems(1) obtain offer where p: "createOffer I l = Inr offer"
    and rest: "\<forall>l\<in>set ls. \<exists>offer. createOffer I l = Inr offer" by auto
  from Cons.prems(2) have "distinct (map email (users (store (lineStep I defaultCommand i l w))))"
    by (rule lineStep_default_emails(2) [OF p])
  with rest show ?case
    by (simp add: deliver_default_Cons [OF p] Cons.IH)
qed

lemma deliver_default_known:
  "\<forall>l\<in>set ls. \<exists>offer. createOffer I l = Inr offer \<Longrightarrow>
   fileEmails I ls \<subseteq> set (map email (users (store w))) \<Longrightarrow>
   users (store (snd (deliver (onImportedLine I defaultCommand) i ls w))) = users (store w)"
proof (induction ls arbitrary: i w)
  case Nil
  show ?case by simp
next
  case (Cons l ls)
  let ?w1 = "lineStep I defaultCommand i l w"
  from Cons.prems(1) obtain offer where p: "createOffer I l = Inr offer"
    and rest: "\<forall>l\<in>set ls. \<exists>offer. createOffer I l = Inr offer" by auto
  from Cons.prems(2) have in1: "email (user offer) \<in> set (map email (users (store w)))"
    and in2: "fileEmails I ls \<subseteq> set (map email (users (store w)))"
    by (simp_all add: fileEmails_Cons [OF p])
  have u1: "users (store ?w1) = users (store w)"
    using in1 by (rule lineStep_default_emails(3) [OF p])
  with in2 have "fileEmails I ls \<subseteq> set (map email (users (store ?w1)))" by simp
  with rest have "users (store (snd (deliver (onImportedLine I defaultCommand) (Suc i) ls ?w1))) =
      users (store ?w1)"
    by (rule Cons.IH)
  then show ?case by (simp add: deliver_default_Cons [OF p] u1)
qed

lemma deliver_default_prefix:
  "\<forall>l\<in>set ls. \<exists>offer. createOffer I l = Inr offer \<Longrightarrow>
   take (length (users (store w)))
     (users (store (snd (deliver (onImportedLine I defaultCommand) i ls w)))) = users (store w)"
proof (induction ls arbitrary: i w)
  case Nil
  show ?case by simp
next
  case (Cons l ls)
  let ?w1 = "lineStep I defaultCommand i l w"
  let ?w2 = "snd (deliver (onImportedLine I defaultCommand) (Suc i) ls ?w1)"
  from Cons.prems obtain offer where p: "createOffer I l = Inr offer"
    and rest: "\<forall>l\<in>set ls. \<exists>offer. createOffer I l = Inr offer" by auto
  have a: "take (length (users (store w))) (users (store ?w1)) = users (store w)"
    by (rule lineStep_default_emails(4) [OF p])
  have b: "take (length (users (store ?w1))) (users (store ?w2)) = users (store ?w1)"
    using rest by (rule Cons.IH)
  have "length (users (store w)) \<le> length (users (store ?w1))"
    using arg_cong [OF a, of length] by simp
  then have "take (length (users (store w))) (users (store ?w2)) =
        take (length (users (store w))) (take (length (users (store ?w1))) (users (store ?w2)))"
    by (simp add: min_def)
  with a b show ?case by (simp add: deliver_default_Cons [OF p])
qed

lemma find_distinct:
  "distinct (map f xs) \<Longrightarrow> u \<in> set xs \<Longrightarrow> find (\<lambda>x. f x = f u) xs = Some u"
  by (induction xs) (auto simp: image_iff)

lemma findOrCreate_existing:
  "distinct (map email (users d)) \<Longrightarrow> u \<in> set (users d) \<Longrightarrow> email dto = email u \<Longrightarrow>
   DefaultUserService_findOrCreate dto s d = (Inr u, d)"
  using find_distinct [of email "users d" u]
  by (simp add: DefaultUserService_findOrCreate_def)

lemma defaultCommand_sel:
  "userService_findOrCreate defaultCommand = DefaultUserService_findOrCreate"
  "offerService_create defaultCommand = DefaultOfferService_create"
  "databaseClient_connect defaultCommand = MongoDatabaseClient_connect"
  "databaseClient_disconnect defaultCommand = MongoDatabaseClient_disconnect"
  by (simp_all add: defaultCommand_def)

lemma execute_default:
  assumes uri: "getMongoURI I login pw host (DEFAULT_DB_PORT I) dbname = target (store w)"
      and src: "fs (trim filename) = Inr (Source ls None)"
      and parse: "\<forall>l\<in>set ls. \<exists>offer. createOffer I l = Inr offer"
  shows "fst (execute I defaultCommand fs filename login pw host dbname s w) = Returned"
    and "length (offers (store (snd (execute I defaultCommand fs filename login pw host dbname s w)))) =
           length (offers (store w)) + length ls"
    and "target (store (snd (execute I defaultCommand fs filename login pw host dbname s w))) =
           target (store w)"
    and "set (map email (users (store (snd (execute I defaultCommand fs filename login pw host dbname s w))))) =
           set (map email (users (store w))) \<union> fileEmails I ls"
    and "distinct (map email (users (store w))) \<Longrightarrow>
           distinct (map email (users (store (snd (execute I defaultCommand fs filename login pw host dbname s w)))))"
    and "fileEmails I ls \<subseteq> set (map email (users (store w))) \<Longrightarrow>
           users (store (snd (execute I defaultCommand fs filename login pw host dbname s w))) =
           users (store w)"
    and "take (length (users (store w)))
           (users (store (snd (execute I defaultCommand fs filename login pw host dbname s w)))) =
           users (store w)"
proof -
  let ?d = "(store w)\<lparr>connected := True\<rparr>"
  let ?b = "begun I filename login pw host dbname s w ?d"
  let ?r = "deliver (onImportedLine I defaultCommand) 0 ls ?b"
  have con: "databaseClient_connect defaultCommand
      (getMongoURI I login pw host (DEFAULT_DB_PORT I) dbname) (store w) = (Inr (), ?d)"
    by (simp add: defaultCommand_sel MongoDatabaseClient_connect_def uri)
  have "\<forall>l\<in>set ls. \<forall>v. accepted I defaultCommand l v"
    using parse by (auto intro: default_accepts)
  from deliver_all_accepted [OF this, of 0 ?b] have n: "fst ?r = Some (length ls)" by simp
  then obtain w2 where r: "?r = (Some (length ls), w2)" by (cases ?r) simp
  have ex: "execute I defaultCommand fs filename login pw host dbname s w =
      (Returned, snd (onCompleteImport defaultCommand (length ls) w2))"
    using execute_reads [where fs = fs and filename = filename and s = s, OF con src]
    by (simp add: r)
  have st: "store (snd (execute I defaultCommand fs filename login pw host dbname s w)) =
      (store (snd ?r))\<lparr>connected := False\<rparr>"
    by (simp add: ex r onCompleteImport_snd defaultCommand_sel MongoDatabaseClient_disconnect_def)
  show "fst (execute I defaultCommand fs filename login pw host dbname s w) = Returned"
    by (simp add: ex)
  show "length (offers (store (snd (execute I defaultCommand fs filename login pw host dbname s w)))) =
           length (offers (store w)) + length ls"
    using deliver_default_offers [OF parse, of 0 ?b] by (simp add: st)
  show "target (store (snd (execute I defaultCommand fs filename login pw host dbname s w))) =
           target (store w)"
    using deliver_default_target [OF parse, of 0 ?b] by (simp add: st)
  show "set (map email (users (store (snd (execute I defaultCommand fs filename login pw host dbname s w))))) =
           set (map email (users (store w))) \<union> fileEmails I ls"
    using deliver_default_emails [OF parse, of 0 ?b] by (simp add: st)
  show "distinct (map email (users (store (snd (execute I defaultCommand fs filename login pw host dbname s w)))))"
    if "distinct (map email (users (store w)))"
    using deliver_default_distinct [OF parse, of ?b 0] that by (simp add: st)
  show "users (store (snd (execute I defaultCommand fs filename login pw host dbname s w))) =
           users (store w)"
    if "fileEmails I ls \<subseteq> set (map email (users (store w)))"
    using deliver_default_known [OF parse, of ?b 0] that by (simp add: st)
  show "take (length (users (store w)))
           (users (store (snd (execute I defaultCommand fs filename login pw host dbname s w)))) =
           users (store w)"
    using deliver_default_prefix [OF parse, of ?b 0] by (simp add: st)
qed

subsection \<open>Connection failure\<close>

text \<open>
  C5. If opening the store connection fails, \<^verbatim>\<open>execute\<close> fails with that
  error, and all it has done is to keep the salt and make the connect call: the
  trace gains the connect call alone, so no file was opened, no line delivered and no
  owner or listing call made; the store is as the failed connect left it.
\<close>

theorem connection_failure_reads_nothing:
  assumes "databaseClient_connect cmd (getMongoURI I login pw host (DEFAULT_DB_PORT I) dbname) (store w) = (Inl e, d)"
  shows "execute I cmd fs filename login pw host dbname s w =
           (Raised e, w\<lparr>store := d, salt := s,
              trace := trace w @ [Connect (getMongoURI I login pw host (DEFAULT_DB_PORT I) dbname)]\<rparr>)"
  using assms by (rule execute_connect_fails)

theorem connection_failure_reads_nothing_witness:
  "databaseClient_connect defaultCommand
     (getMongoURI sampleImports ''u'' ''p'' ''dbx'' (DEFAULT_DB_PORT sampleImports) ''six'') (store emptyWorld)
     = (Inl (Error ''ConnectionError''), store emptyWorld) \<and>
   execute sampleImports defaultCommand sampleFiles (units ''ok.tsv'') ''u'' ''p'' ''dbx'' ''six'' ''salty'' emptyWorld =
     (Raised (Error ''ConnectionError''),
      emptyWorld\<lparr>salt := ''salty'', trace := [Connect ''dbx:27017/six'']\<rparr>)"
proof -
  have h: "databaseClient_connect defaultCommand
     (getMongoURI sampleImports ''u'' ''p'' ''dbx'' (DEFAULT_DB_PORT sampleImports) ''six'') (store emptyWorld)
     = (Inl (Error ''ConnectionError''), store emptyWorld)"
    by (simp add: defaultCommand_def sampleImports_def emptyWorld_def MongoDatabaseClient_connect_def)
  show ?thesis
    using h connection_failure_reads_nothing [OF h, of sampleFiles "units ''ok.tsv''" "''salty''"]
    by (simp add: sampleImports_def emptyWorld_def)
qed

subsection \<open>The credential of created owners\<close>

text \<open>
  C7. Every owner call made during a run of \<^verbatim>\<open>execute\<close> carries the salt given
  to that call of \<^verbatim>\<open>execute\<close> and a profile built from a parsed line of the file: the four
  profile fields of the parsed owner and, as password, the constant
  \<^verbatim>\<open>DEFAULT_USER_PASSWORD\<close>; nothing else of the line reaches the password.
\<close>

theorem owner_calls_carry_placeholder_password_and_run_salt:
  assumes "(dto, s') \<in> set (ownerCalls (added w (snd (execute I cmd fs filename login pw host dbname s w))))"
  shows "s' = s \<and>
         (\<exists>src l offer. fs (trim filename) = Inr src \<and> l \<in> set (lines src) \<and>
            createOffer I l = Inr offer \<and>
            dto = \<lparr>userName = userName (user offer), email = email (user offer),
                    avatarPath = avatarPath (user offer), userType = userType (user offer),
                    password = DEFAULT_USER_PASSWORD I\<rparr>)"
proof -
  obtain r d where con: "databaseClient_connect cmd (getMongoURI I login pw host (DEFAULT_DB_PORT I) dbname) (store w) = (r, d)"
    by (cases "databaseClient_connect cmd (getMongoURI I login pw host (DEFAULT_DB_PORT I) dbname) (store w)")
  let ?b = "begun I filename login pw host dbname s w d"
  from assms con obtain src where src: "fs (trim filename) = Inr src" and
    "(dto, s') \<in> set (ownerCalls (added ?b (snd (deliver (onImportedLine I cmd) 0 (lines src) ?b))))"
    by (cases r; cases "fs (trim filename)") (simp_all add: execute_added runEvents_ownerCalls)
  from deliver_ownerCalls [OF this(2)] have "s' = s"
    and "\<exists>l\<in>set (lines src). \<exists>offer. createOffer I l = Inr offer \<and> dto = ownerDto I offer"
    by auto
  with src show ?thesis unfolding ownerDto_def by blast
qed

theorem owner_calls_carry_placeholder_password_and_run_salt_witness:
  "(\<lparr>userName = ''Ann'', email = ''b@x'', avatarPath = ''ann.png'', userType = ''pro'',
     password = ''123456''\<rparr>, ''salty'')
     \<in> set (ownerCalls (added emptyWorld (snd (execute sampleImports defaultCommand sampleFiles
               (units ''ok.tsv'') ''u'' ''p'' ''db'' ''six'' ''salty'' emptyWorld)))) \<and>
   ''salty'' = ''salty'' \<and>
   (\<exists>l offer. createOffer sampleImports l = Inr offer \<and>
      \<lparr>userName = ''Ann'', email = ''b@x'', avatarPath = ''ann.png'', userType = ''pro'',
       password = ''123456''\<rparr> =
      \<lparr>userName = userName (user offer), email = email (user offer),
       avatarPath = avatarPath (user offer), userType = userType (user offer),
       password = DEFAULT_USER_PASSWORD sampleImports\<rparr>)"
proof -
  have h: "(\<lparr>userName = ''Ann'', email = ''b@x'', avatarPath = ''ann.png'', userType = ''pro'',
     password = ''123456''\<rparr>, ''salty'')
     \<in> set (ownerCalls (added emptyWorld (snd (execute sampleImports defaultCommand sampleFiles
               (units ''ok.tsv'') ''u'' ''p'' ''db'' ''six'' ''salty'' emptyWorld))))"
    by code_simp
  from h owner_calls_carry_placeholder_password_and_run_salt [OF h] show ?thesis by blast
qed

subsection \<open>Owner first, then the listing\<close>



subsection \<open>The summary\<close>

text \<open>
  C9. When the input ends without a read failure and \<^verbatim>\<open>execute\<close> returns, the
  run has printed exactly one message on \<^verbatim>\<open>console.info\<close>: a decimal numeral
  followed by \<^verbatim>\<open> rows imported.\<close>, and the numeral reads as the number of lines
  of the file, all of which were delivered.
\<close>

theorem summary_reports_lines_delivered:
  assumes "fs (trim filename) = Inr (Source ls None)"
      and "fst (execute I cmd fs filename login pw host dbname s w) = Returned"
  shows "(\<exists>digits. infos (added w (snd (execute I cmd fs filename login pw host dbname s w))) =
                     [digits @ '' rows imported.''] \<and>
                   readDecimal digits = Some (length ls)) \<and>
         delivered (added w (snd (execute I cmd fs filename login pw host dbname s w))) =
           [0 ..< length ls]"
  using summary_text [OF assms] readDecimal_toString [of "length ls"] by blast

theorem summary_reports_lines_delivered_witness:
  "sampleFiles (trim (units ''ok.tsv'')) = Inr (Source [''a@x'', ''b@x'', ''a@x''] None) \<and>
   fst (execute sampleImports defaultCommand sampleFiles (units ''ok.tsv'') ''u'' ''p'' ''db'' ''six'' ''salty'' emptyWorld) = Returned \<and>
   infos (added emptyWorld (snd (execute sampleImports defaultCommand sampleFiles (units ''ok.tsv'') ''u'' ''p'' ''db'' ''six'' ''salty'' emptyWorld))) =
     [''3 rows imported.''] \<and>
   readDecimal ''3'' = Some 3 \<and>
   delivered (added emptyWorld (snd (execute sampleImports defaultCommand sampleFiles (units ''ok.tsv'') ''u'' ''p'' ''db'' ''six'' ''salty'' emptyWorld))) =
     [0 ..< length [''a@x'', ''b@x'', ''a@x'']]"
proof -
  have h1: "sampleFiles (trim (units ''ok.tsv'')) = Inr (Source [''a@x'', ''b@x'', ''a@x''] None)"
    by code_simp
  have h2: "fst (execute sampleImports defaultCommand sampleFiles (units ''ok.tsv'') ''u'' ''p'' ''db'' ''six'' ''salty'' emptyWorld) = Returned"
    by code_simp
  have c: "infos (added emptyWorld (snd (execute sampleImports defaultCommand sampleFiles (units ''ok.tsv'') ''u'' ''p'' ''db'' ''six'' ''salty'' emptyWorld))) =
     [''3 rows imported.'']"
    by code_simp
  have d: "readDecimal ''3'' = Some 3" by code_simp
  from summary_reports_lines_delivered [OF h1 h2] h1 h2 c d show ?thesis by blast
qed

subsection \<open>The file name is trimmed\<close>

text \<open>
  C10. \<^verbatim>\<open>execute\<close> constructs the reader on \<^verbatim>\<open>filename.trim()\<close>. Two
  file names that are the same text \<open>p\<close> inside white space make the run open the
  same path, end the same way and leave the same store. When \<open>p\<close> itself neither
  begins nor ends with white space, the path opened is \<open>p\<close>, whatever white space
  \<open>p\<close> has inside. (By \<open>trim_decompose\<close> every file name is such a \<open>p\<close> inside
  white space.)
\<close>

theorem surrounding_whitespace_reads_same_file:
  assumes "\<forall>c\<in>set a1. isWhiteSpace c" and "\<forall>c\<in>set b1. isWhiteSpace c"
      and "\<forall>c\<in>set a2. isWhiteSpace c" and "\<forall>c\<in>set b2. isWhiteSpace c"
  shows "opened (added w (snd (execute I cmd fs (a1 @ p @ b1) login pw host dbname s w))) =
           opened (added w (snd (execute I cmd fs (a2 @ p @ b2) login pw host dbname s w))) \<and>
         fst (execute I cmd fs (a1 @ p @ b1) login pw host dbname s w) =
           fst (execute I cmd fs (a2 @ p @ b2) login pw host dbname s w) \<and>
         store (snd (execute I cmd fs (a1 @ p @ b1) login pw host dbname s w)) =
           store (snd (execute I cmd fs (a2 @ p @ b2) login pw host dbname s w)) \<and>
         (p = [] \<or> (\<not> isWhiteSpace (hd p) \<and> \<not> isWhiteSpace (last p)) \<longrightarrow>
            opened (added w (snd (execute I cmd fs (a1 @ p @ b1) login pw host dbname s w))) =
              (case databaseClient_connect cmd (getMongoURI I login pw host (DEFAULT_DB_PORT I) dbname)
                      (store w) of
                 (Inl e, d) \<Rightarrow> []
               | (Inr x, d) \<Rightarrow> [p]))"
proof -
  have t1: "trim (a1 @ p @ b1) = trim p" using assms(1,2) by (rule trim_surrounding)
  have t2: "trim (a2 @ p @ b2) = trim p" using assms(3,4) by (rule trim_surrounding)
  then have t: "trim (a1 @ p @ b1) = trim (a2 @ p @ b2)" using t1 by simp
  have c: "p = [] \<or> (\<not> isWhiteSpace (hd p) \<and> \<not> isWhiteSpace (last p)) \<Longrightarrow> trim p = p"
    by (rule trim_core)
  have o: "opened (added w (snd (execute I cmd fs f login pw host dbname s w))) =
      (case databaseClient_connect cmd (getMongoURI I login pw host (DEFAULT_DB_PORT I) dbname) (store w) of
         (Inl e, d) \<Rightarrow> []
       | (Inr x, d) \<Rightarrow> [trim f])" for f
    by (simp add: execute_added runEvents_opened)
  have 1: "opened (added w (snd (execute I cmd fs (a1 @ p @ b1) login pw host dbname s w))) =
           opened (added w (snd (execute I cmd fs (a2 @ p @ b2) login pw host dbname s w)))"
    unfolding o t by (rule refl)
  have 4: "opened (added w (snd (execute I cmd fs (a1 @ p @ b1) login pw host dbname s w))) =
              (case databaseClient_connect cmd (getMongoURI I login pw host (DEFAULT_DB_PORT I) dbname)
                      (store w) of
                 (Inl e, d) \<Rightarrow> []
               | (Inr x, d) \<Rightarrow> [p])"
    if "p = [] \<or> (\<not> isWhiteSpace (hd p) \<and> \<not> isWhiteSpace (last p))"
    unfolding o t1 c [OF that] by (rule refl)
  from 1 4 execute_trim_only [OF t, of I cmd fs login pw host dbname s w]
  show ?thesis by blast
qed

theorem surrounding_whitespace_reads_same_file_witness:
  "isWhiteSpace 0x3000 \<and> isWhiteSpace 0x0020 \<and> isWhiteSpace 0x000A \<and> isWhiteSpace 0x0009 \<and>
   isWhiteSpace 0xFEFF \<and>
   \<not> isWhiteSpace (hd (units ''my file.tsv'')) \<and> \<not> isWhiteSpace (last (units ''my file.tsv'')) \<and>
   opened (added emptyWorld (snd (execute sampleImports defaultCommand sampleFiles
       ([0x3000, 0x0020] @ units ''my file.tsv'' @ [0x000A]) ''u'' ''p'' ''db'' ''six'' ''salty'' emptyWorld))) =
     [units ''my file.tsv''] \<and>
   opened (added emptyWorld (snd (execute sampleImports defaultCommand sampleFiles
       ([0xFEFF] @ units ''my file.tsv'' @ [0x0009]) ''u'' ''p'' ''db'' ''six'' ''salty'' emptyWorld))) =
     [units ''my file.tsv'']"
proof -
  have w: "isWhiteSpace 0x3000" "isWhiteSpace 0x0020" "isWhiteSpace 0x000A" "isWhiteSpace 0x0009"
      "isWhiteSpace 0xFEFF"
    by (simp_all add: isWhiteSpace_def)
  have h1: "\<forall>c\<in>set [0x3000, 0x0020]. isWhiteSpace c" using w by simp
  have h2: "\<forall>c\<in>set [0x000A]. isWhiteSpace c" using w by simp
  have h3: "\<forall>c\<in>set [0xFEFF]. isWhiteSpace c" using w by simp
  have h4: "\<forall>c\<in>set [0x0009]. isWhiteSpace c" using w by simp
  have k: "\<not> isWhiteSpace (hd (units ''my file.tsv''))" "\<not> isWhiteSpace (last (units ''my file.tsv''))"
    by code_simp+
  have con: "databaseClient_connect defaultCommand
      (getMongoURI sampleImports ''u'' ''p'' ''db'' (DEFAULT_DB_PORT sampleImports) ''six'') (store emptyWorld) =
      (Inr (), (store emptyWorld)\<lparr>connected := True\<rparr>)"
    by code_simp
  note inst = surrounding_whitespace_reads_same_file [OF h1 h2 h3 h4, of emptyWorld sampleImports
      defaultCommand sampleFiles "units ''my file.tsv''" "''u''" "''p''" "''db''" "''six''" "''salty''"]
  note i1 = inst [THEN conjunct1]
  note i4 = inst [THEN conjunct2, THEN conjunct2, THEN conjunct2, rule_format]
  have e1: "opened (added emptyWorld (snd (execute sampleImports defaultCommand sampleFiles
       ([0x3000, 0x0020] @ units ''my file.tsv'' @ [0x000A]) ''u'' ''p'' ''db'' ''six'' ''salty'' emptyWorld))) =
     [units ''my file.tsv'']"
    using i4 k by (simp only: con prod.case sum.case simp_thms)
  have e2: "opened (added emptyWorld (snd (execute sampleImports defaultCommand sampleFiles
       ([0xFEFF] @ units ''my file.tsv'' @ [0x0009]) ''u'' ''p'' ''db'' ''six'' ''salty'' emptyWorld))) =
     [units ''my file.tsv'']"
    using i1 e1 by (simp only:)
  from w k e1 e2 show ?thesis by simp
qed

subsection \<open>Releasing the connection\<close>

text \<open>
  C3. The claim is that the connection is released exactly once on every terminal
  path. On the path of a normal end of input it is: \<^verbatim>\<open>onCompleteImport\<close>
  disconnects. On the path of a fatal input error it is not: the \<^verbatim>\<open>catch\<close> block
  of \<^verbatim>\<open>execute\<close> prints two messages and returns, and nothing disconnects. The
  run below connects, cannot open its file, returns normally, and has made no
  disconnect call; the store is still connected. The run on a readable file has made
  one.
\<close>

theorem unopenable_file_leaves_connection_open:
  "fst (execute sampleImports defaultCommand sampleFiles (units ''nope.tsv'') ''u'' ''p'' ''db'' ''six'' ''salty'' emptyWorld) = Returned \<and>
   disconnects (trace (snd (execute sampleImports defaultCommand sampleFiles (units ''nope.tsv'') ''u'' ''p'' ''db'' ''six'' ''salty'' emptyWorld))) = 0 \<and>
   connected (store (snd (execute sampleImports defaultCommand sampleFiles (units ''nope.tsv'') ''u'' ''p'' ''db'' ''six'' ''salty'' emptyWorld))) \<and>
   disconnects (trace (snd (execute sampleImports defaultCommand sampleFiles (units ''ok.tsv'') ''u'' ''p'' ''db'' ''six'' ''salty'' emptyWorld))) = 1"
  by code_simp

subsection \<open>What happens to a fatal error\<close>

text \<open>
  C4, as stated, fails: a read failure that is an \<^verbatim>\<open>Error\<close> is not raised to
  the caller of \<^verbatim>\<open>execute\<close>. The file below delivers one line and then fails
  with an \<^verbatim>\<open>Error\<close>; \<^verbatim>\<open>execute\<close> returns normally.
\<close>

theorem read_failure_not_raised_counterexample:
  "sampleFiles (trim (units ''cut.tsv'')) = Inr (Source [''a@x''] (Some (Error ''EIO''))) \<and>
   fst (execute sampleImports defaultCommand sampleFiles (units ''cut.tsv'') ''u'' ''p'' ''db'' ''six'' ''salty'' emptyWorld)
     \<noteq> Raised (Error ''EIO'') \<and>
   fst (execute sampleImports defaultCommand sampleFiles (units ''cut.tsv'') ''u'' ''p'' ''db'' ''six'' ''salty'' emptyWorld)
     = Returned"
  by code_simp

text \<open>
  C4, amended. When the store is connected and the input fails, on opening or after
  its lines, and the failure surfaces, \<^verbatim>\<open>execute\<close> does as its
  \<^verbatim>\<open>catch\<close> block says: an instance of \<^verbatim>\<open>Error\<close> is reported by two
  messages on \<^verbatim>\<open>console.error\<close>, the file name as given and the error's message,
  and \<^verbatim>\<open>execute\<close> returns normally; any other thrown value is raised to the
  caller and nothing is printed.
\<close>

theorem caught_error_reported_not_raised:
  assumes "databaseClient_connect cmd (getMongoURI I login pw host (DEFAULT_DB_PORT I) dbname) (store w) = (Inr x, d)"
      and "fs (trim filename) = Inl err \<or> (\<exists>ls. fs (trim filename) = Inr (Source ls (Some err)))"
      and "fst (execute I cmd fs filename login pw host dbname s w) \<noteq> Stalled"
  shows "fst (execute I cmd fs filename login pw host dbname s w) =
           (if instanceof_Error err then Returned else Raised err) \<and>
         errors (added w (snd (execute I cmd fs filename login pw host dbname s w))) =
           (if instanceof_Error err
            then [units ''Can't import data from file: '' @ filename, getErrorMessage I err] else [])"
  using assms(2)
proof
  assume op: "fs (trim filename) = Inl err"
  have "fst (execute I cmd fs filename login pw host dbname s w) =
           (if instanceof_Error err then Returned else Raised err)"
    by (simp add: execute_open_fails [where fs = fs and filename = filename and s = s, OF assms(1) op]
          caught_fst)
  moreover have "errors (added w (snd (execute I cmd fs filename login pw host dbname s w))) =
           (if instanceof_Error err
            then [units ''Can't import data from file: '' @ filename, getErrorMessage I err] else [])"
    using assms(1) op by (simp add: execute_added runEvents_def caughtLog_errors)
  ultimately show ?thesis by (rule conjI)
next
  assume "\<exists>ls. fs (trim filename) = Inr (Source ls (Some err))"
  then obtain ls where op: "fs (trim filename) = Inr (Source ls (Some err))" by blast
  let ?b = "begun I filename login pw host dbname s w d"
  obtain k w2 where r: "deliver (onImportedLine I cmd) 0 ls ?b = (k, w2)"
    by (cases "deliver (onImportedLine I cmd) 0 ls ?b")
  have ex: "execute I cmd fs filename login pw host dbname s w =
      (case k of None \<Rightarrow> (Stalled, w2) | Some n \<Rightarrow> caught I filename err w2)"
    using execute_reads [where fs = fs and filename = filename and s = s, OF assms(1) op] r
    by (cases k) simp_all
  with assms(3) obtain n where k: "k = Some n" by (cases k) simp_all
  have q: "errors (added ?b w2) = []"
    using deliver_quiet(2) [of ?b I cmd 0 ls] r by simp
  have "fst (execute I cmd fs filename login pw host dbname s w) =
           (if instanceof_Error err then Returned else Raised err)"
    using k by (simp add: ex caught_fst)
  moreover have "errors (added w (snd (execute I cmd fs filename login pw host dbname s w))) =
           (if instanceof_Error err
            then [units ''Can't import data from file: '' @ filename, getErrorMessage I err] else [])"
    using assms(1) op r k q by (simp add: execute_added runEvents_def caughtLog_errors)
  ultimately show ?thesis by (rule conjI)
qed

theorem caught_error_reported_not_raised_witness:
  "databaseClient_connect defaultCommand
     (getMongoURI sampleImports ''u'' ''p'' ''db'' (DEFAULT_DB_PORT sampleImports) ''six'') (store emptyWorld)
     = (Inr (), (store emptyWorld)\<lparr>connected := True\<rparr>) \<and>
   sampleFiles (trim (units ''odd.tsv'')) = Inr (Source [] (Some (NonError ''oops''))) \<and>
   fst (execute sampleImports defaultCommand sampleFiles (units ''odd.tsv'') ''u'' ''p'' ''db'' ''six'' ''salty'' emptyWorld) \<noteq> Stalled \<and>
   fst (execute sampleImports defaultCommand sampleFiles (units ''odd.tsv'') ''u'' ''p'' ''db'' ''six'' ''salty'' emptyWorld) =
     Raised (NonError ''oops'')"
proof -
  have h1: "databaseClient_connect defaultCommand
     (getMongoURI sampleImports ''u'' ''p'' ''db'' (DEFAULT_DB_PORT sampleImports) ''six'') (store emptyWorld)
     = (Inr (), (store emptyWorld)\<lparr>connected := True\<rparr>)"
    by code_simp
  have f: "sampleFiles (trim (units ''odd.tsv'')) = Inr (Source [] (Some (NonError ''oops'')))"
    by code_simp
  then have h2: "sampleFiles (trim (units ''odd.tsv'')) = Inl (NonError ''oops'') \<or>
      (\<exists>ls. sampleFiles (trim (units ''odd.tsv'')) = Inr (Source ls (Some (NonError ''oops''))))"
    by blast
  have h3: "fst (execute sampleImports defaultCommand sampleFiles (units ''odd.tsv'') ''u'' ''p'' ''db'' ''six'' ''salty'' emptyWorld) \<noteq> Stalled"
    by code_simp
  from caught_error_reported_not_raised [OF h1 h2 h3] h1 f h3 show ?thesis by simp
qed

subsection \<open>A record that fails\<close>




subsection \<open>One record in flight\<close>

text \<open>
  C2, as stated, fails: a well-formed file does not get all its lines acknowledged
  when the store rejects a creation. Every line of the file below parses; the listing
  service rejects; the first line is delivered and never acknowledged, and the run
  stalls there.
\<close>

theorem well_formed_file_unacknowledged_counterexample:
  "createOffer sampleImports ''a@x'' = Inr (sampleOffer ''a@x'') \<and>
   createOffer sampleImports ''b@x'' = Inr (sampleOffer ''b@x'') \<and>
   sampleFiles (trim (units ''ok.tsv'')) = Inr (Source [''a@x'', ''b@x'', ''a@x''] None) \<and>
   fst (execute sampleImports rejectingCommand sampleFiles (units ''ok.tsv'')
          ''u'' ''p'' ''db'' ''six'' ''salty'' emptyWorld) = Stalled \<and>
   acks (trace (snd (execute sampleImports rejectingCommand sampleFiles (units ''ok.tsv'')
          ''u'' ''p'' ''db'' ''six'' ''salty'' emptyWorld))) = [] \<and>
   delivered (trace (snd (execute sampleImports rejectingCommand sampleFiles (units ''ok.tsv'')
          ''u'' ''p'' ''db'' ''six'' ''salty'' emptyWorld))) = [0]"
  by code_simp

text \<open>
  C2, amended. In every run the events are in the order of a single flight: a line is
  delivered only when no line is in flight, its owner call and then its listing call
  follow, and line \<open>i\<close> is acknowledged only after its listing call; line \<open>i + 1\<close>
  is delivered only after that acknowledgment. The acknowledgments issued are for the
  lines \<open>0, 1, 2, \<dots>\<close> in this order. When the store is connected and the file
  opens, the run does not stall exactly when every line is accepted in the state in
  which the run reaches it (it parses and its store work succeeds there), and a run
  that does not stall has issued exactly \<open>N\<close> acknowledgments for the \<open>N\<close> lines
  of the file.
\<close>

theorem acknowledgments_in_line_order_after_settled_work:
  "singleFlight (added w (snd (execute I cmd fs filename login pw host dbname s w))) \<and>
   acks (added w (snd (execute I cmd fs filename login pw host dbname s w))) =
     [0 ..< length (acks (added w (snd (execute I cmd fs filename login pw host dbname s w))))] \<and>
   (databaseClient_connect cmd (getMongoURI I login pw host (DEFAULT_DB_PORT I) dbname) (store w) = (Inr (), d) \<and>
    fs (trim filename) = Inr (Source ls f) \<longrightarrow>
      (allAccepted I cmd 0 ls (begun I filename login pw host dbname s w d) \<longleftrightarrow>
         fst (execute I cmd fs filename login pw host dbname s w) \<noteq> Stalled) \<and>
      (fst (execute I cmd fs filename login pw host dbname s w) \<noteq> Stalled \<longrightarrow>
         acks (added w (snd (execute I cmd fs filename login pw host dbname s w))) = [0 ..< length ls]))"
proof (intro conjI impI)
  show "singleFlight (added w (snd (execute I cmd fs filename login pw host dbname s w)))"
    by (simp add: singleFlight_def execute_added runEvents_follow)
next
  obtain r d where con: "databaseClient_connect cmd (getMongoURI I login pw host (DEFAULT_DB_PORT I) dbname) (store w) = (r, d)"
    by (cases "databaseClient_connect cmd (getMongoURI I login pw host (DEFAULT_DB_PORT I) dbname) (store w)")
  show "acks (added w (snd (execute I cmd fs filename login pw host dbname s w))) =
     [0 ..< length (acks (added w (snd (execute I cmd fs filename login pw host dbname s w))))]"
  proof (cases r)
    case (Inl e)
    with con show ?thesis by (simp add: execute_added runEvents_acks)
  next
    case (Inr x)
    show ?thesis
    proof (cases "fs (trim filename)")
      case (Inl e)
      with con Inr show ?thesis by (simp add: execute_added runEvents_acks)
    next
      case src: (Inr src)
      show ?thesis
        using con Inr src
          deliver_acks [of "begun I filename login pw host dbname s w d" I cmd 0 "lines src"]
        by (simp add: execute_added runEvents_acks)
    qed
  qed
next
  assume a: "databaseClient_connect cmd (getMongoURI I login pw host (DEFAULT_DB_PORT I) dbname) (store w) = (Inr (), d) \<and>
    fs (trim filename) = Inr (Source ls f)"
  then have con: "databaseClient_connect cmd (getMongoURI I login pw host (DEFAULT_DB_PORT I) dbname) (store w) = (Inr (), d)"
    and src: "fs (trim filename) = Inr (Source ls f)" by simp_all
  show "allAccepted I cmd 0 ls (begun I filename login pw host dbname s w d) \<longleftrightarrow>
         fst (execute I cmd fs filename login pw host dbname s w) \<noteq> Stalled"
    using execute_stalled_iff [where fs = fs and filename = filename and s = s, OF con src]
    by (simp add: allAccepted_iff)
next
  assume a: "databaseClient_connect cmd (getMongoURI I login pw host (DEFAULT_DB_PORT I) dbname) (store w) = (Inr (), d) \<and>
    fs (trim filename) = Inr (Source ls f)"
    and ns: "fst (execute I cmd fs filename login pw host dbname s w) \<noteq> Stalled"
  then have con: "databaseClient_connect cmd (getMongoURI I login pw host (DEFAULT_DB_PORT I) dbname) (store w) = (Inr (), d)"
    and src: "fs (trim filename) = Inr (Source ls f)" by simp_all
  let ?b = "begun I filename login pw host dbname s w d"
  from ns execute_stalled_iff [where fs = fs and filename = filename and s = s, OF con src]
  obtain n where "fst (deliver (onImportedLine I cmd) 0 ls ?b) = Some n" by auto
  from deliver_Some [OF this] con src
  show "acks (added w (snd (execute I cmd fs filename login pw host dbname s w))) = [0 ..< length ls]"
    by (simp add: execute_added runEvents_acks)
qed

theorem acknowledgments_in_line_order_after_settled_work_witness:
  "databaseClient_connect defaultCommand
     (getMongoURI sampleImports ''u'' ''p'' ''db'' (DEFAULT_DB_PORT sampleImports) ''six'') (store emptyWorld)
     = (Inr (), (store emptyWorld)\<lparr>connected := True\<rparr>) \<and>
   sampleFiles (trim (units ''ok.tsv'')) = Inr (Source [''a@x'', ''b@x'', ''a@x''] None) \<and>
   allAccepted sampleImports defaultCommand 0 [''a@x'', ''b@x'', ''a@x'']
     (begun sampleImports (units ''ok.tsv'') ''u'' ''p'' ''db'' ''six'' ''salty'' emptyWorld
        ((store emptyWorld)\<lparr>connected := True\<rparr>)) \<and>
   fst (execute sampleImports defaultCommand sampleFiles (units ''ok.tsv'')
          ''u'' ''p'' ''db'' ''six'' ''salty'' emptyWorld) \<noteq> Stalled \<and>
   acks (added emptyWorld (snd (execute sampleImports defaultCommand sampleFiles (units ''ok.tsv'')
           ''u'' ''p'' ''db'' ''six'' ''salty'' emptyWorld))) = [0, 1, 2]"
proof -
  have h1: "databaseClient_connect defaultCommand
     (getMongoURI sampleImports ''u'' ''p'' ''db'' (DEFAULT_DB_PORT sampleImports) ''six'') (store emptyWorld)
     = (Inr (), (store emptyWorld)\<lparr>connected := True\<rparr>)"
    by code_simp
  have h2: "sampleFiles (trim (units ''ok.tsv'')) = Inr (Source [''a@x'', ''b@x'', ''a@x''] None)"
    by code_simp
  have h3: "allAccepted sampleImports defaultCommand 0 [''a@x'', ''b@x'', ''a@x'']
     (begun sampleImports (units ''ok.tsv'') ''u'' ''p'' ''db'' ''six'' ''salty'' emptyWorld
        ((store emptyWorld)\<lparr>connected := True\<rparr>))"
    by code_simp
  have u: "[0 ..< length [''a@x'', ''b@x'', ''a@x'']] = [0, 1, 2]"
    by code_simp
  note inst = acknowledgments_in_line_order_after_settled_work
         [of emptyWorld sampleImports defaultCommand sampleFiles "units ''ok.tsv''" "''u''" "''p''" "''db''"
             "''six''" "''salty''" "(store emptyWorld)\<lparr>connected := True\<rparr>"
             "[''a@x'', ''b@x'', ''a@x'']" None]
  from inst h1 h2 h3
  have ns: "fst (execute sampleImports defaultCommand sampleFiles (units ''ok.tsv'')
          ''u'' ''p'' ''db'' ''six'' ''salty'' emptyWorld) \<noteq> Stalled"
    by blast
  with inst h1 h2
  have "acks (added emptyWorld (snd (execute sampleImports defaultCommand sampleFiles (units ''ok.tsv'')
           ''u'' ''p'' ''db'' ''six'' ''salty'' emptyWorld))) = [0 ..< length [''a@x'', ''b@x'', ''a@x'']]"
    by blast
  with h1 h2 h3 ns u show ?thesis by simp
qed

subsection \<open>Importing a file twice\<close>

text \<open>
  C6. With the store of the specification behind the command: let every line of the
  file parse, let the store hold at most one owner per e-mail, and import the file
  twice. Both runs return. The second run leaves the owners as the first left them,
  and the first left the owners it found untouched; there is one owner per e-mail, and
  the e-mails are those the store had and those of the file; each run adds one listing
  per line, so that the two runs add twice the number of lines. And owner resolution
  against the store after the first run returns, for the e-mail of any owner there,
  that owner, and leaves the store unchanged.
\<close>

theorem reimport_keeps_owners_and_doubles_listings:
  assumes uri: "getMongoURI I login pw host (DEFAULT_DB_PORT I) dbname = target (store w)"
      and src: "fs (trim filename) = Inr (Source ls None)"
      and parse: "\<forall>l\<in>set ls. \<exists>offer. createOffer I l = Inr offer"
      and dist: "distinct (map email (users (store w)))"
      and run1: "execute I defaultCommand fs filename login pw host dbname s w = (r1, w1)"
      and run2: "execute I defaultCommand fs filename login pw host dbname s' w1 = (r2, w2)"
  shows "r1 = Returned \<and> r2 = Returned \<and>
         users (store w2) = users (store w1) \<and>
         take (length (users (store w))) (users (store w1)) = users (store w) \<and>
         distinct (map email (users (store w2))) \<and>
         set (map email (users (store w2))) = set (map email (users (store w))) \<union> fileEmails I ls \<and>
         length (offers (store w1)) = length (offers (store w)) + length ls \<and>
         length (offers (store w2)) = length (offers (store w)) + 2 * length ls \<and>
         (\<forall>u dto salt'. u \<in> set (users (store w1)) \<and> email dto = email u \<longrightarrow>
            DefaultUserService_findOrCreate dto salt' (store w1) = (Inr u, store w1))"
proof -
  note a = execute_default [where fs = fs and filename = filename and s = s, OF uri src parse]
  from run1 have w1: "w1 = snd (execute I defaultCommand fs filename login pw host dbname s w)"
    and r1: "r1 = fst (execute I defaultCommand fs filename login pw host dbname s w)" by simp_all
  have uri1: "getMongoURI I login pw host (DEFAULT_DB_PORT I) dbname = target (store w1)"
    using a(3) uri by (simp add: w1)
  note b = execute_default [where fs = fs and filename = filename and s = s', OF uri1 src parse]
  from run2 have w2: "w2 = snd (execute I defaultCommand fs filename login pw host dbname s' w1)"
    and r2: "r2 = fst (execute I defaultCommand fs filename login pw host dbname s' w1)" by simp_all
  have d1: "distinct (map email (users (store w1)))"
    using a(5) [OF dist] by (simp add: w1)
  have e1: "set (map email (users (store w1))) = set (map email (users (store w))) \<union> fileEmails I ls"
    using a(4) by (simp add: w1)
  then have known: "fileEmails I ls \<subseteq> set (map email (users (store w1)))" by blast
  have same: "users (store w2) = users (store w1)"
    using b(6) [OF known] by (simp add: w2)
  have o1: "length (offers (store w1)) = length (offers (store w)) + length ls"
    using a(2) by (simp add: w1)
  have o2: "length (offers (store w2)) = length (offers (store w1)) + length ls"
    using b(2) by (simp add: w2)
  have p1: "take (length (users (store w))) (users (store w1)) = users (store w)"
    using a(7) by (simp add: w1)
  have fsw: "\<forall>u dto salt'. u \<in> set (users (store w1)) \<and> email dto = email u \<longrightarrow>
            DefaultUserService_findOrCreate dto salt' (store w1) = (Inr u, store w1)"
    using d1 by (auto intro: findOrCreate_existing)
  show ?thesis
    using a(1) b(1) same d1 e1 o1 o2 p1 fsw by (simp add: r1 r2)
qed

theorem reimport_keeps_owners_and_doubles_listings_witness:
  "getMongoURI sampleImports ''u'' ''p'' ''db'' (DEFAULT_DB_PORT sampleImports) ''six'' =
     target (store emptyWorld) \<and>
   sampleFiles (trim (units ''ok.tsv'')) = Inr (Source [''a@x'', ''b@x'', ''a@x''] None) \<and>
   distinct (map email (users (store emptyWorld))) \<and>
   users (store (snd (execute sampleImports defaultCommand sampleFiles (units ''ok.tsv'') ''u'' ''p'' ''db'' ''six'' ''pepper''
     (snd (execute sampleImports defaultCommand sampleFiles (units ''ok.tsv'') ''u'' ''p'' ''db'' ''six'' ''salty''
        emptyWorld))))) =
   users (store (snd (execute sampleImports defaultCommand sampleFiles (units ''ok.tsv'') ''u'' ''p'' ''db'' ''six'' ''salty''
        emptyWorld))) \<and>
   length (offers (store (snd (execute sampleImports defaultCommand sampleFiles (units ''ok.tsv'') ''u'' ''p'' ''db'' ''six'' ''salty''
        emptyWorld)))) = 3 \<and>
   length (offers (store (snd (execute sampleImports defaultCommand sampleFiles (units ''ok.tsv'') ''u'' ''p'' ''db'' ''six'' ''pepper''
     (snd (execute sampleImports defaultCommand sampleFiles (units ''ok.tsv'') ''u'' ''p'' ''db'' ''six'' ''salty''
        emptyWorld)))))) = 6"
proof -
  let ?e1 = "execute sampleImports defaultCommand sampleFiles (units ''ok.tsv'') ''u'' ''p'' ''db'' ''six'' ''salty'' emptyWorld"
  let ?e2 = "execute sampleImports defaultCommand sampleFiles (units ''ok.tsv'') ''u'' ''p'' ''db'' ''six'' ''pepper'' (snd ?e1)"
  have h1: "getMongoURI sampleImports ''u'' ''p'' ''db'' (DEFAULT_DB_PORT sampleImports) ''six'' =
     target (store emptyWorld)"
    by code_simp
  have h2: "sampleFiles (trim (units ''ok.tsv'')) = Inr (Source [''a@x'', ''b@x'', ''a@x''] None)"
    by code_simp
  have h3: "\<forall>l\<in>set [''a@x'', ''b@x'', ''a@x'']. \<exists>offer. createOffer sampleImports l = Inr offer"
    by (simp add: sampleImports_def sampleParser_def)
  have h4: "distinct (map email (users (store emptyWorld)))"
    by (simp add: emptyWorld_def)
  have run1: "?e1 = (fst ?e1, snd ?e1)" by simp
  have run2: "?e2 = (fst ?e2, snd ?e2)" by simp
  have z: "length (offers (store emptyWorld)) = 0" by (simp add: emptyWorld_def)
  from reimport_keeps_owners_and_doubles_listings
         [where fs = sampleFiles and filename = "units ''ok.tsv''" and s = "''salty''" and s' = "''pepper''",
          OF h1 h2 h3 h4 run1 run2]
  have "users (store (snd ?e2)) = users (store (snd ?e1)) \<and>
        length (offers (store (snd ?e1))) = length (offers (store emptyWorld)) + length [''a@x'', ''b@x'', ''a@x''] \<and>
        length (offers (store (snd ?e2))) = length (offers (store emptyWorld)) + 2 * length [''a@x'', ''b@x'', ''a@x'']"
    by blast
  with h1 h2 h4 z show ?thesis by simp
qed

end
